theory Spec2Isabelle
  imports Main "HOL-Library.AList"
begin

section \<open>JavaScript values and objects\<close>

text \<open>
  The encryption layer of the citizen-services backend lives in two classes:
  \<^verbatim>\<open>FortanixDSMService\<close> (backend/services/fortanixService.js), the client of the
  remote key-management service, and \<^verbatim>\<open>EncryptionService\<close>
  (backend/services/encryptionService.js), the field codec; the database wrappers are in
  backend/database/encryptedDb.js, over the query helpers of backend/database/db.js.

  A JavaScript string is modelled by \<^typ>\<open>string\<close>, each \<^typ>\<open>char\<close> standing for one
  code unit below 256. The values that entity fields and parameters take are the
  primitives below; numbers are the integers that \<^verbatim>\<open>ToString\<close> writes in plain decimal
  (no fractions, no NaN).
\<close>

datatype jsval = Undefined | Null | Bool bool | Num int | Str string

text \<open>Truthiness, as \<^verbatim>\<open>if (v)\<close> and \<^verbatim>\<open>!v\<close> see it.\<close>

fun truthy :: "jsval \<Rightarrow> bool" where
  "truthy Undefined = False"
| "truthy Null = False"
| "truthy (Bool b) = b"
| "truthy (Num n) = (n \<noteq> 0)"
| "truthy (Str s) = (s \<noteq> [])"

text \<open>
  An object is the list of its own properties in insertion order. \<^verbatim>\<open>o[k]\<close> is
  \<open>get\<close> (an absent key reads \<^verbatim>\<open>undefined\<close>), \<^verbatim>\<open>o[k] = v\<close> is \<^const>\<open>AList.update\<close>,
  \<^verbatim>\<open>delete o[k]\<close> is \<^const>\<open>AList.delete\<close>, \<^verbatim>\<open>k in o\<close> is \<open>has_key\<close>, and the spread
  \<^verbatim>\<open>{ ...o }\<close> is the list itself. The keys are field names, none of them an array
  index.
\<close>

type_synonym obj = "(string \<times> jsval) list"

definition get :: "obj \<Rightarrow> string \<Rightarrow> jsval" where
  "get r k = (case map_of r k of None \<Rightarrow> Undefined | Some v \<Rightarrow> v)"

definition has_key :: "obj \<Rightarrow> string \<Rightarrow> bool" where
  "has_key r k = (map_of r k \<noteq> None)"

subsection \<open>Strings\<close>

fun starts_with :: "string \<Rightarrow> string \<Rightarrow> bool" where
  "starts_with _ [] = True"
| "starts_with [] (_ # _) = False"
| "starts_with (c # cs) (p # ps) = (c = p \<and> starts_with cs ps)"

text \<open>\<^verbatim>\<open>String.prototype.includes\<close>: the argument occurs as a contiguous substring.\<close>

fun includes_str :: "string \<Rightarrow> string \<Rightarrow> bool" where
  "includes_str [] sub = (sub = [])"
| "includes_str (c # cs) sub = (starts_with (c # cs) sub \<or> includes_str cs sub)"

text \<open>The decimal digits of a number, as \<^verbatim>\<open>ToString\<close> writes an integer.\<close>

definition digit_char :: "int \<Rightarrow> char" where
  "digit_char d = ''0123456789'' ! nat d"

function show_digits :: "int \<Rightarrow> string" where
  "show_digits n =
     (if n < 10 then [digit_char n] else show_digits (n div 10) @ [digit_char (n mod 10)])"
  by pat_completeness auto
termination
  by (relation "measure nat") auto

declare show_digits.simps [simp del]

definition show_int :: "int \<Rightarrow> string" where
  "show_int i = (if i < 0 then CHR ''-'' # show_digits (- i) else show_digits i)"

text \<open>\<^verbatim>\<open>ToString\<close>, as a template literal and \<^verbatim>\<open>JSON.parse\<close> apply it to their argument.\<close>

fun to_string :: "jsval \<Rightarrow> string" where
  "to_string Undefined = ''undefined''"
| "to_string Null = ''null''"
| "to_string (Bool b) = (if b then ''true'' else ''false'')"
| "to_string (Num n) = show_int n"
| "to_string (Str s) = s"

subsection \<open>Buffers\<close>

text \<open>
  \<^verbatim>\<open>Buffer.from(s)\<close> and \<^verbatim>\<open>Buffer.from(s, 'utf8')\<close> encode a string in UTF-8: a code unit
  below 128 is one byte, one from 128 to 255 is two.
\<close>

fun utf8 :: "string \<Rightarrow> nat list" where
  "utf8 [] = []"
| "utf8 (c # cs) =
     (let u = (of_char c :: nat)
      in if u < 128 then u # utf8 cs else (192 + u div 64) # (128 + u mod 64) # utf8 cs)"

definition b64_alphabet :: string where
  "b64_alphabet = ''ABCDEFGHIJKLMNOPQRSTUVWXYZabcdefghijklmnopqrstuvwxyz0123456789+/''"

definition b64 :: "nat \<Rightarrow> char" where
  "b64 n = b64_alphabet ! (n mod 64)"

text \<open>\<^verbatim>\<open>buf.toString('base64')\<close>: three bytes give four characters, with \<^verbatim>\<open>=\<close> padding.\<close>

fun base64 :: "nat list \<Rightarrow> string" where
  "base64 [] = []"
| "base64 [a] = [b64 (a div 4), b64 ((a mod 4) * 16), CHR ''='', CHR ''='']"
| "base64 [a, b] =
     [b64 (a div 4), b64 ((a mod 4) * 16 + b div 16), b64 ((b mod 16) * 4), CHR ''='']"
| "base64 (a # b # c # bs) =
     b64 (a div 4) # b64 ((a mod 4) * 16 + b div 16) # b64 ((b mod 16) * 4 + c div 64)
       # b64 (c mod 64) # base64 bs"

section \<open>\<^verbatim>\<open>JSON.parse\<close>\<close>

text \<open>
  \<^verbatim>\<open>decryptData\<close> tells an envelope from legacy plaintext by \<^verbatim>\<open>JSON.parse\<close>, so the
  grammar of JSON texts is part of the model: whitespace, the three literals, numbers,
  strings with their escapes, arrays and objects. A parsed string is a list of code
  units (an escape \<^verbatim>\<open>\uXXXX\<close> may denote one above 255); a parsed number
  \<open>JNum m e\<close> stands for \<open>m * 10 ^ e\<close>; an object keeps its members in source order.
\<close>

datatype json =
    JNull
  | JBool bool
  | JNum int int
  | JStr "nat list"
  | JArr "json list"
  | JObj "(nat list \<times> json) list"

definition is_ws :: "char \<Rightarrow> bool" where
  "is_ws c = (c = CHR '' '' \<or> c = CHR 0x09 \<or> c = CHR 0x0A \<or> c = CHR 0x0D)"

definition is_digit :: "char \<Rightarrow> bool" where
  "is_digit c = (48 \<le> (of_char c :: nat) \<and> (of_char c :: nat) \<le> 57)"

definition digit_val :: "char \<Rightarrow> nat" where
  "digit_val c = of_char c - 48"

definition hex_val :: "char \<Rightarrow> nat option" where
  "hex_val c =
     (let u = (of_char c :: nat)
      in if 48 \<le> u \<and> u \<le> 57 then Some (u - 48)
         else if 65 \<le> u \<and> u \<le> 70 then Some (u - 55)
         else if 97 \<le> u \<and> u \<le> 102 then Some (u - 87)
         else None)"

fun skip_ws :: "string \<Rightarrow> string" where
  "skip_ws [] = []"
| "skip_ws (c # cs) = (if is_ws c then skip_ws cs else c # cs)"

text \<open>The single-character escapes of a JSON string.\<close>

definition escape_val :: "char \<Rightarrow> nat option" where
  "escape_val c =
     (if c = CHR 0x22 then Some 34
      else if c = CHR 0x5C then Some 92
      else if c = CHR ''/'' then Some 47
      else if c = CHR ''b'' then Some 8
      else if c = CHR ''f'' then Some 12
      else if c = CHR ''n'' then Some 10
      else if c = CHR ''r'' then Some 13
      else if c = CHR ''t'' then Some 9
      else None)"

definition hex4 :: "char \<Rightarrow> char \<Rightarrow> char \<Rightarrow> char \<Rightarrow> nat option" where
  "hex4 a b c d =
     (case (hex_val a, hex_val b, hex_val c, hex_val d) of
        (Some w, Some x, Some y, Some z) \<Rightarrow> Some (((w * 16 + x) * 16 + y) * 16 + z)
      | _ \<Rightarrow> None)"

text \<open>
  The body of a string, after its opening quote; \<open>acc\<close> holds the code units read so
  far, latest first. A control character or the end of the text before the closing quote
  is a syntax error.
\<close>

fun parse_string :: "string \<Rightarrow> nat list \<Rightarrow> (nat list \<times> string) option" where
  "parse_string [] acc = None"
| "parse_string (c # cs) acc =
     (if c = CHR 0x22 then Some (rev acc, cs)
      else if c = CHR 0x5C then
        (case cs of
           [] \<Rightarrow> None
         | e # es \<Rightarrow>
             if e = CHR ''u'' then
               (case es of
                  a # b # x # d # r \<Rightarrow>
                    (case hex4 a b x d of
                       None \<Rightarrow> None
                     | Some u \<Rightarrow> parse_string r (u # acc))
                | _ \<Rightarrow> None)
             else
               (case escape_val e of
                  None \<Rightarrow> None
                | Some u \<Rightarrow> parse_string es (u # acc)))
      else if (of_char c :: nat) < 32 then None
      else parse_string cs (of_char c # acc))"

definition digits_val :: "string \<Rightarrow> int" where
  "digits_val ds = foldl (\<lambda>n c. 10 * n + int (digit_val c)) 0 ds"

text \<open>
  A number: an optional minus sign, an integer part without a leading zero, an optional
  fraction and an optional exponent.
\<close>

definition parse_exponent :: "string \<Rightarrow> (int \<times> string) option" where
  "parse_exponent cs =
     (case cs of
        [] \<Rightarrow> Some (0, [])
      | c # r \<Rightarrow>
          if c = CHR ''e'' \<or> c = CHR ''E'' then
            (let (neg, r1) =
               (case r of
                  [] \<Rightarrow> (False, r)
                | s # r' \<Rightarrow>
                    if s = CHR ''-'' then (True, r')
                    else if s = CHR ''+'' then (False, r') else (False, r));
                 ds = takeWhile is_digit r1
             in if ds = [] then None
                else Some ((if neg then - digits_val ds else digits_val ds),
                           dropWhile is_digit r1))
          else Some (0, cs))"

definition parse_fraction :: "string \<Rightarrow> (string \<times> string) option" where
  "parse_fraction cs =
     (case cs of
        [] \<Rightarrow> Some ([], [])
      | c # r \<Rightarrow>
          if c = CHR ''.'' then
            (let ds = takeWhile is_digit r
             in if ds = [] then None else Some (ds, dropWhile is_digit r))
          else Some ([], cs))"

definition parse_number :: "string \<Rightarrow> (json \<times> string) option" where
  "parse_number cs =
     (let (neg, r0) = (case cs of [] \<Rightarrow> (False, cs)
                       | c # r \<Rightarrow> if c = CHR ''-'' then (True, r) else (False, cs));
          ds = takeWhile is_digit r0;
          r1 = dropWhile is_digit r0
      in if ds = [] \<or> (hd ds = CHR ''0'' \<and> length ds > 1) then None
         else
           (case parse_fraction r1 of
              None \<Rightarrow> None
            | Some (fs, r2) \<Rightarrow>
                (case parse_exponent r2 of
                   None \<Rightarrow> None
                 | Some (e, r3) \<Rightarrow>
                     (let m = digits_val (ds @ fs)
                      in Some (JNum (if neg then - m else m) (e - int (length fs)), r3)))))"

text \<open>
  Values, array elements and object members. \<open>parse_elems\<close> starts at an element and
  ends after the closing bracket, \<open>parse_members\<close> starts at a key and ends after the
  closing brace. Each returns what it parsed and the rest of the text. The comparisons
  of lengths make the recursion well-founded; they hold whenever they are reached, a
  parsed value being at least one character long (\<open>parse_elems_unguarded\<close> and
  \<open>parse_members_unguarded\<close> below).
\<close>

fun parse_value :: "string \<Rightarrow> (json \<times> string) option"
  and parse_elems :: "string \<Rightarrow> (json list \<times> string) option"
  and parse_members :: "string \<Rightarrow> ((nat list \<times> json) list \<times> string) option"
where
  "parse_value [] = None"
| "parse_value (c # cs) =
     (if is_ws c then parse_value cs
      else if c = CHR ''{'' then
        (case skip_ws cs of
           [] \<Rightarrow> None
         | d # ds \<Rightarrow>
             if d = CHR ''}'' then Some (JObj [], ds)
             else (case parse_members cs of
                     None \<Rightarrow> None
                   | Some (ms, r) \<Rightarrow> Some (JObj ms, r)))
      else if c = CHR ''['' then
        (case skip_ws cs of
           [] \<Rightarrow> None
         | d # ds \<Rightarrow>
             if d = CHR '']'' then Some (JArr [], ds)
             else (case parse_elems cs of
                     None \<Rightarrow> None
                   | Some (vs, r) \<Rightarrow> Some (JArr vs, r)))
      else if c = CHR 0x22 then
        (case parse_string cs [] of
           None \<Rightarrow> None
         | Some (u, r) \<Rightarrow> Some (JStr u, r))
      else if c = CHR ''-'' \<or> is_digit c then parse_number (c # cs)
      else if starts_with (c # cs) ''true'' then Some (JBool True, drop 4 (c # cs))
      else if starts_with (c # cs) ''false'' then Some (JBool False, drop 5 (c # cs))
      else if starts_with (c # cs) ''null'' then Some (JNull, drop 4 (c # cs))
      else None)"
| "parse_elems cs =
     (case parse_value cs of
        None \<Rightarrow> None
      | Some (v, r) \<Rightarrow>
          (case skip_ws r of
             [] \<Rightarrow> None
           | d # ds \<Rightarrow>
               if d = CHR '']'' then Some ([v], ds)
               else if d = CHR '','' \<and> length ds < length cs then
                 (case parse_elems ds of
                    None \<Rightarrow> None
                  | Some (vs, r') \<Rightarrow> Some (v # vs, r'))
               else None))"
| "parse_members cs =
     (case skip_ws cs of
        [] \<Rightarrow> None
      | q # ks \<Rightarrow>
          if q = CHR 0x22 then
            (case parse_string ks [] of
               None \<Rightarrow> None
             | Some (k, r) \<Rightarrow>
                 (case skip_ws r of
                    [] \<Rightarrow> None
                  | d # ds \<Rightarrow>
                      if d = CHR '':'' \<and> length ds < length cs then
                        (case parse_value ds of
                           None \<Rightarrow> None
                         | Some (v, r') \<Rightarrow>
                             (case skip_ws r' of
                                [] \<Rightarrow> None
                              | x # xs \<Rightarrow>
                                  if x = CHR ''}'' then Some ([(k, v)], xs)
                                  else if x = CHR '','' \<and> length xs < length cs then
                                    (case parse_members xs of
                                       None \<Rightarrow> None
                                     | Some (ms, r'') \<Rightarrow> Some ((k, v) # ms, r''))
                                  else None))
                      else None))
          else None)"

text \<open>\<^verbatim>\<open>JSON.parse(text)\<close>: one value, then nothing but whitespace; \<open>None\<close> is the SyntaxError.\<close>

definition JSON_parse :: "string \<Rightarrow> json option" where
  "JSON_parse s =
     (case parse_value s of
        None \<Rightarrow> None
      | Some (v, r) \<Rightarrow> if skip_ws r = [] then Some v else None)"

text \<open>
  Reading a property of a parsed value: \<^verbatim>\<open>null.cipher\<close> throws a TypeError, an object
  gives its member (the last one when a key is repeated), everything else
  \<^verbatim>\<open>undefined\<close>, here \<open>None\<close>.
\<close>

datatype error =
    TypeError
  | RequestFailed
  | CertificatesMissing
  | FileNotFound
  | EncryptFailed
  | DecryptFailed
  | SelfTestFailed
  | QueryFailed

definition code_units :: "string \<Rightarrow> nat list" where
  "code_units s = map of_char s"

fun property :: "json \<Rightarrow> string \<Rightarrow> error + json option" where
  "property JNull k = Inl TypeError"
| "property (JObj ms) k = Inr (map_of (rev ms) (code_units k))"
| "property _ k = Inr None"

text \<open>
  Truthiness of a property that was read. A number is falsy when it is zero as a double:
  its digits are all zero, or it is so small that it rounds to zero (at most \<open>2\<close> to the
  power \<open>-1075\<close>).
\<close>

fun json_truthy :: "json option \<Rightarrow> bool" where
  "json_truthy None = False"
| "json_truthy (Some JNull) = False"
| "json_truthy (Some (JBool b)) = b"
| "json_truthy (Some (JNum m e)) =
     (m \<noteq> 0 \<and> \<not> (e < 0 \<and> \<bar>m\<bar> * 2 ^ 1075 \<le> 10 ^ nat (- e)))"
| "json_truthy (Some (JStr u)) = (u \<noteq> [])"
| "json_truthy (Some (JArr vs)) = True"
| "json_truthy (Some (JObj ms)) = True"

section \<open>The HSM client: \<^verbatim>\<open>FortanixDSMService\<close>\<close>

text \<open>
  The fields of the class. \<open>apiKey\<close>, \<open>appId\<close> and \<open>keyId\<close> are read from the process
  environment and are \<^verbatim>\<open>undefined\<close> (\<open>None\<close>) when the variable is not set;
  \<open>tokenExpiry\<close> is \<^verbatim>\<open>null\<close> (\<open>None\<close>) until the first authentication.
\<close>

record service =
  authMethod :: string
  endpoint :: string
  apiKey :: "string option"
  appId :: "string option"
  keyId :: "string option"
  accessToken :: jsval
  tokenExpiry :: "int option"
  demoMode :: bool

text \<open>\<^verbatim>\<open>process.env.X || d\<close>: the default stands in for an unset or empty variable.\<close>

definition env_or :: "(string \<times> string) list \<Rightarrow> string \<Rightarrow> string \<Rightarrow> string" where
  "env_or env k d = (case map_of env k of None \<Rightarrow> d | Some v \<Rightarrow> if v = [] then d else v)"

definition new_service :: "(string \<times> string) list \<Rightarrow> service" where
  "new_service env =
     (let m = env_or env ''FORTANIX_AUTH_METHOD'' ''api_key''
      in \<lparr> authMethod = m,
           endpoint =
             (if m = ''trusted_ca''
              then env_or env ''APP_FORTANIX_DSM_ENDPOINT'' ''https://apps.amer.smartkey.io''
              else env_or env ''FORTANIX_DSM_ENDPOINT'' ''https://amer.smartkey.io''),
           apiKey = map_of env ''FORTANIX_API_KEY'',
           appId = map_of env ''FORTANIX_APP_ID'',
           keyId = map_of env ''FORTANIX_KEY_ID'',
           accessToken = Null,
           tokenExpiry = None,
           demoMode = False \<rparr>)"

subsection \<open>The world outside the process\<close>

text \<open>
  What the client reaches beyond its own fields: the clock (\<^verbatim>\<open>Date.now()\<close>, in
  milliseconds), the files that exist, the key-management service and the database.
  The remote service is a stub transport: for each of its three endpoints a script of
  the replies still to come, \<open>None\<close> for a call that axios rejects (no connection, or a
  status outside 2xx); an exhausted script rejects too. A reply to the session endpoint
  carries \<^verbatim>\<open>access_token\<close> and \<^verbatim>\<open>expires_in\<close>, one to the encrypt endpoint \<^verbatim>\<open>cipher\<close> and
  \<^verbatim>\<open>iv\<close>, one to the decrypt endpoint the text that
  \<^verbatim>\<open>Buffer.from(plain, 'base64').toString('utf8')\<close> yields. Every request sent is recorded,
  with its URL and body, in \<open>requests\<close>. The clock stands still during one call.

  The database is the SQLite engine behind \<^verbatim>\<open>db.run\<close> of the sqlite3 library, with the
  file it keeps. It is outside the repository as well and is treated like the remote
  service: \<open>db_replies\<close> is the script of its answers to the statements still to come,
  \<open>None\<close> for a statement it refuses with an error (a constraint of the schema, say) and
  otherwise \<^verbatim>\<open>this.lastID\<close> and \<^verbatim>\<open>this.changes\<close>; an exhausted script refuses too. Every
  statement handed to the engine is recorded, with its parameters, in \<open>statements\<close>;
  the stored data changes through such statements only. An insert statement is written
  by its table and its columns.
\<close>

datatype request =
    AuthRequest string
  | EncryptRequest string "string option" string
  | DecryptRequest string "string option" json json

datatype statement = InsertInto string "string list"

record world =
  now :: int
  files :: "string list"
  auth_replies :: "(jsval \<times> int) option list"
  encrypt_replies :: "(string \<times> string) option list"
  decrypt_replies :: "string option list"
  requests :: "request list"
  db_replies :: "(int \<times> int) option list"
  statements :: "(statement \<times> jsval list) list"

definition post_auth :: "string \<Rightarrow> world \<Rightarrow> (error + jsval \<times> int) \<times> world" where
  "post_auth url w =
     (let w' = w\<lparr>requests := requests w @ [AuthRequest url]\<rparr>
      in case auth_replies w of
           [] \<Rightarrow> (Inl RequestFailed, w')
         | None # rs \<Rightarrow> (Inl RequestFailed, w'\<lparr>auth_replies := rs\<rparr>)
         | Some d # rs \<Rightarrow> (Inr d, w'\<lparr>auth_replies := rs\<rparr>))"

definition post_encrypt ::
  "string \<Rightarrow> string option \<Rightarrow> string \<Rightarrow> world \<Rightarrow> (error + string \<times> string) \<times> world" where
  "post_encrypt url kid plain w =
     (let w' = w\<lparr>requests := requests w @ [EncryptRequest url kid plain]\<rparr>
      in case encrypt_replies w of
           [] \<Rightarrow> (Inl RequestFailed, w')
         | None # rs \<Rightarrow> (Inl RequestFailed, w'\<lparr>encrypt_replies := rs\<rparr>)
         | Some d # rs \<Rightarrow> (Inr d, w'\<lparr>encrypt_replies := rs\<rparr>))"

definition post_decrypt ::
  "string \<Rightarrow> string option \<Rightarrow> json \<Rightarrow> json \<Rightarrow> world \<Rightarrow> (error + string) \<times> world" where
  "post_decrypt url kid c i w =
     (let w' = w\<lparr>requests := requests w @ [DecryptRequest url kid c i]\<rparr>
      in case decrypt_replies w of
           [] \<Rightarrow> (Inl RequestFailed, w')
         | None # rs \<Rightarrow> (Inl RequestFailed, w'\<lparr>decrypt_replies := rs\<rparr>)
         | Some d # rs \<Rightarrow> (Inr d, w'\<lparr>decrypt_replies := rs\<rparr>))"

definition cert_path :: string where
  "cert_path = ''/opt/fortanix/enclave-os/default_cert/app_public.pem''"

definition key_path :: string where
  "key_path = ''/opt/fortanix/enclave-os/default_cert/app_private.pem''"

text \<open>\<^verbatim>\<open>fs.readFileSync\<close> of the certificate and then of the key: it throws when one is absent.\<close>

definition read_certificates :: "world \<Rightarrow> error + unit" where
  "read_certificates w =
     (if cert_path \<in> set (files w) \<and> key_path \<in> set (files w) then Inr () else Inl FileNotFound)"

subsection \<open>Authentication\<close>

text \<open>
  Every asynchronous method is a function of the service and the world that returns the
  value it resolves to, or the error it rejects with, together with the service and the
  world as it leaves them.
\<close>

type_synonym 'a io = "(error + 'a) \<times> service \<times> world"

definition authenticateWithAPIKey :: "service \<Rightarrow> world \<Rightarrow> jsval io" where
  "authenticateWithAPIKey s w =
     (case apiKey s of
        None \<Rightarrow> (Inl TypeError, s, w)
      | Some k \<Rightarrow>
          if includes_str k ''fff-ff-ff-ff-ff-f'' \<or> includes_str k ''your-'' \<or> k = []
             \<or> length k < 10
          then (Inr (Str ''demo-access-token''),
                s\<lparr>accessToken := Str ''demo-access-token'',
                  tokenExpiry := Some (now w + 3600 * 1000),
                  demoMode := True\<rparr>, w)
          else
            (case post_auth (endpoint s @ ''/sys/v1/session/auth'') w of
               (Inl e, w') \<Rightarrow> (Inl e, s, w')
             | (Inr (tok, expires_in), w') \<Rightarrow>
                 (Inr tok,
                  s\<lparr>accessToken := tok,
                    tokenExpiry := Some (now w' + expires_in * 1000),
                    demoMode := False\<rparr>, w')))"

definition authenticateWithTrustedCA :: "service \<Rightarrow> world \<Rightarrow> jsval io" where
  "authenticateWithTrustedCA s w =
     (if filter (\<lambda>p. p \<notin> set (files w)) [cert_path, key_path] \<noteq> []
      then (Inl CertificatesMissing, s, w)
      else
        (case post_auth (endpoint s @ ''/sys/v1/session/auth'') w of
           (Inl e, w') \<Rightarrow> (Inl e, s, w')
         | (Inr (tok, expires_in), w') \<Rightarrow>
             (Inr tok,
              s\<lparr>accessToken := tok,
                tokenExpiry := Some (now w' + expires_in * 1000),
                demoMode := False\<rparr>, w')))"

definition authenticate :: "service \<Rightarrow> world \<Rightarrow> jsval io" where
  "authenticate s w =
     (if authMethod s = ''trusted_ca'' then authenticateWithTrustedCA s w
      else authenticateWithAPIKey s w)"

text \<open>In \<^verbatim>\<open>this.tokenExpiry - 60000\<close> the initial \<^verbatim>\<open>null\<close> counts as zero.\<close>

definition expiry_number :: "int option \<Rightarrow> int" where
  "expiry_number t = (case t of None \<Rightarrow> 0 | Some n \<Rightarrow> n)"

definition ensureAuthenticated :: "service \<Rightarrow> world \<Rightarrow> jsval io" where
  "ensureAuthenticated s w =
     (if \<not> truthy (accessToken s) \<or> now w \<ge> expiry_number (tokenExpiry s) - 60000
      then (case authenticate s w of
              (Inl e, s', w') \<Rightarrow> (Inl e, s', w')
            | (Inr _, s', w') \<Rightarrow> (Inr (accessToken s'), s', w'))
      else (Inr (accessToken s), s, w))"

subsection \<open>Encrypting and decrypting one value\<close>

text \<open>
  \<^verbatim>\<open>JSON.stringify({cipher: c, iv: i})\<close> for two strings: each is quoted, with the quote,
  the backslash and the control characters escaped.
\<close>

definition hex_digit :: "nat \<Rightarrow> char" where
  "hex_digit n = ''0123456789abcdef'' ! (n mod 16)"

definition quote_char :: "char \<Rightarrow> string" where
  "quote_char c =
     (let u = (of_char c :: nat)
      in if c = CHR 0x22 then [CHR 0x5C, CHR 0x22]
         else if c = CHR 0x5C then [CHR 0x5C, CHR 0x5C]
         else if u = 8 then [CHR 0x5C, CHR ''b'']
         else if u = 12 then [CHR 0x5C, CHR ''f'']
         else if u = 10 then [CHR 0x5C, CHR ''n'']
         else if u = 13 then [CHR 0x5C, CHR ''r'']
         else if u = 9 then [CHR 0x5C, CHR ''t'']
         else if u < 32 then [CHR 0x5C, CHR ''u'', CHR ''0'', CHR ''0'', hex_digit (u div 16), hex_digit u]
         else [c])"

definition quote :: "string \<Rightarrow> string" where
  "quote s = CHR 0x22 # concat (map quote_char s) @ [CHR 0x22]"

definition stringify_envelope :: "string \<Rightarrow> string \<Rightarrow> string" where
  "stringify_envelope c i =
     CHR ''{'' # quote ''cipher'' @ '':'' @ quote c @ '','' @ quote ''iv'' @ '':'' @ quote i @ ''}''"

text \<open>
  A \<^verbatim>\<open>try { ... } catch (error) { throw new Error(msg) }\<close> around a whole method body:
  whatever the body throws, the method rejects with the one error.
\<close>

definition catch_as :: "error \<Rightarrow> 'a io \<Rightarrow> 'a io" where
  "catch_as e r = (case r of (Inl _, s, w) \<Rightarrow> (Inl e, s, w) | (Inr v, s, w) \<Rightarrow> (Inr v, s, w))"

text \<open>
  \<^verbatim>\<open>encryptData\<close>. In real mode the request options are built first (for trusted_ca
  the two certificate files are read), then \<^verbatim>\<open>Buffer.from(plaintext, 'utf8')\<close> is
  evaluated, which throws a TypeError unless the plaintext is a string, and then the
  request is sent.
\<close>

definition encryptData :: "jsval \<Rightarrow> service \<Rightarrow> world \<Rightarrow> jsval io" where
  "encryptData plaintext s w =
     catch_as EncryptFailed
       (if \<not> truthy plaintext then (Inr Null, s, w)
        else
          (case ensureAuthenticated s w of
             (Inl e, s', w') \<Rightarrow> (Inl e, s', w')
           | (Inr _, s', w') \<Rightarrow>
               if demoMode s' then
                 (Inr (Str (base64 (utf8
                    (''encrypted:'' @ to_string plaintext @ '':'' @ show_int (now w'))))), s', w')
               else
                 (case (if authMethod s' = ''trusted_ca'' then read_certificates w' else Inr ()) of
                    Inl e \<Rightarrow> (Inl e, s', w')
                  | Inr _ \<Rightarrow>
                      (case plaintext of
                         Str p \<Rightarrow>
                           (case post_encrypt (endpoint s' @ ''/crypto/v1/encrypt'') (keyId s')
                                   (base64 (utf8 p)) w' of
                              (Inl e, w'') \<Rightarrow> (Inl e, s', w'')
                            | (Inr (c, i), w'') \<Rightarrow> (Inr (Str (stringify_envelope c i)), s', w''))
                       | _ \<Rightarrow> (Inl TypeError, s', w')))))"

text \<open>
  The inner \<^verbatim>\<open>try\<close> of \<^verbatim>\<open>decryptData\<close>: \<^verbatim>\<open>JSON.parse\<close>, then the test
  \<^verbatim>\<open>!cipherData.cipher || !cipherData.iv\<close>. \<open>None\<close> is its \<^verbatim>\<open>catch\<close>, the legacy
  plaintext branch.
\<close>

definition parse_envelope :: "string \<Rightarrow> (json \<times> json) option" where
  "parse_envelope text =
     (case JSON_parse text of
        None \<Rightarrow> None
      | Some cipherData \<Rightarrow>
          (case property cipherData ''cipher'' of
             Inl _ \<Rightarrow> None
           | Inr c \<Rightarrow>
               if \<not> json_truthy c then None
               else (case property cipherData ''iv'' of
                       Inl _ \<Rightarrow> None
                     | Inr i \<Rightarrow>
                         if \<not> json_truthy i then None
                         else (case (c, i) of
                                 (Some cv, Some iv) \<Rightarrow> Some (cv, iv)
                               | _ \<Rightarrow> None))))"

definition decryptData :: "jsval \<Rightarrow> service \<Rightarrow> world \<Rightarrow> jsval io" where
  "decryptData ciphertext s w =
     catch_as DecryptFailed
       (if \<not> truthy ciphertext then (Inr Null, s, w)
        else
          (case ensureAuthenticated s w of
             (Inl e, s', w') \<Rightarrow> (Inl e, s', w')
           | (Inr _, s', w') \<Rightarrow>
               (case parse_envelope (to_string ciphertext) of
                  None \<Rightarrow> (Inr ciphertext, s', w')
                | Some (c, i) \<Rightarrow>
                    (case (if authMethod s' = ''trusted_ca'' then read_certificates w'
                           else Inr ()) of
                       Inl e \<Rightarrow> (Inl e, s', w')
                     | Inr _ \<Rightarrow>
                         (case post_decrypt (endpoint s' @ ''/crypto/v1/decrypt'') (keyId s')
                                 c i w' of
                            (Inl e, w'') \<Rightarrow> (Inl e, s', w'')
                          | (Inr plain, w'') \<Rightarrow> (Inr (Str plain), s', w''))))))"

text \<open>
  \<^verbatim>\<open>initialize\<close>: authenticate, then encrypt and decrypt a fixed string and compare
  (\<^verbatim>\<open>decrypted === testData\<close>); an error of any step is thrown on.
\<close>

definition testData :: string where
  "testData = ''Springfield City Services - Test Encryption''"

definition initialize :: "service \<Rightarrow> world \<Rightarrow> unit io" where
  "initialize s w =
     (case authenticate s w of
        (Inl e, s1, w1) \<Rightarrow> (Inl e, s1, w1)
      | (Inr _, s1, w1) \<Rightarrow>
          (case encryptData (Str testData) s1 w1 of
             (Inl e, s2, w2) \<Rightarrow> (Inl e, s2, w2)
           | (Inr encrypted, s2, w2) \<Rightarrow>
               (case decryptData encrypted s2 w2 of
                  (Inl e, s3, w3) \<Rightarrow> (Inl e, s3, w3)
                | (Inr decrypted, s3, w3) \<Rightarrow>
                    if decrypted = Str testData then (Inr (), s3, w3)
                    else (Inl SelfTestFailed, s3, w3))))"

section \<open>The field codec: \<^verbatim>\<open>EncryptionService\<close>\<close>

text \<open>The classification table \<^verbatim>\<open>encryptionConfig\<close> of the constructor.\<close>

definition citizens_sensitiveFields :: "string list" where
  "citizens_sensitiveFields =
     [''firstName'', ''lastName'', ''email'', ''phone'', ''address'', ''zipCode'', ''dateOfBirth'']"

definition citizens_publicFields :: "string list" where
  "citizens_publicFields =
     [''citizenId'', ''city'', ''state'', ''status'', ''createdAt'', ''updatedAt'']"

definition serviceRequests_sensitiveFields :: "string list" where
  "serviceRequests_sensitiveFields = [''notes'', ''applicationData'']"

definition serviceRequests_publicFields :: "string list" where
  "serviceRequests_publicFields =
     [''requestNumber'', ''citizenId'', ''serviceTypeId'', ''status'', ''priority'',
      ''submittedDate'', ''assignedAgent'']"

definition encrypted_key :: "string \<Rightarrow> string" where
  "encrypted_key field = field @ ''_encrypted''"

subsection \<open>Writing\<close>

text \<open>
  The loop \<^verbatim>\<open>for (const field of sensitiveFields)\<close> of \<^verbatim>\<open>encryptCitizenData\<close> and of
  \<^verbatim>\<open>encryptServiceRequestData\<close>, whose bodies are the same: \<open>src\<close> is the entity
  passed in (an object), \<open>acc\<close> the copy \<^verbatim>\<open>encryptedData\<close> being rewritten. An error
  of \<^verbatim>\<open>encryptData\<close> leaves the loop; the \<^verbatim>\<open>catch\<close> around it logs and throws it on.
\<close>

fun encrypt_fields :: "string list \<Rightarrow> obj \<Rightarrow> obj \<Rightarrow> service \<Rightarrow> world \<Rightarrow> obj io" where
  "encrypt_fields [] src acc s w = (Inr acc, s, w)"
| "encrypt_fields (field # rest) src acc s w =
     (if truthy (get src field) then
        (case encryptData (get src field) s w of
           (Inl e, s', w') \<Rightarrow> (Inl e, s', w')
         | (Inr v, s', w') \<Rightarrow>
             encrypt_fields rest src
               (AList.delete field (AList.update (encrypted_key field) v acc)) s' w')
      else encrypt_fields rest src acc s w)"

definition encryptCitizenData :: "obj \<Rightarrow> service \<Rightarrow> world \<Rightarrow> obj io" where
  "encryptCitizenData citizenData s w =
     encrypt_fields citizens_sensitiveFields citizenData citizenData s w"

definition encryptServiceRequestData :: "obj \<Rightarrow> service \<Rightarrow> world \<Rightarrow> obj io" where
  "encryptServiceRequestData requestData s w =
     encrypt_fields serviceRequests_sensitiveFields requestData requestData s w"

subsection \<open>Reading\<close>

text \<open>The tables \<^verbatim>\<open>fallbackValues\<close>, and \<^verbatim>\<open>fallbackValues[field] || '[Encrypted Data]'\<close>.\<close>

definition citizens_fallbackValues :: "(string \<times> string) list" where
  "citizens_fallbackValues =
     [(''firstName'', ''[Encrypted]''),
      (''lastName'', ''[Data]''),
      (''email'', ''[Encrypted Email]''),
      (''phone'', ''[Encrypted Phone]''),
      (''address'', ''[Encrypted Address]''),
      (''zipCode'', ''[Protected]''),
      (''dateOfBirth'', ''[Protected DOB]'')]"

definition serviceRequests_fallbackValues :: "(string \<times> string) list" where
  "serviceRequests_fallbackValues =
     [(''notes'', ''[Encrypted Notes]''),
      (''applicationData'', ''[Encrypted Application Data]'')]"

definition fallback :: "(string \<times> string) list \<Rightarrow> string \<Rightarrow> jsval" where
  "fallback fallbackValues field =
     (case map_of fallbackValues field of
        None \<Rightarrow> Str ''[Encrypted Data]''
      | Some v \<Rightarrow> if v = [] then Str ''[Encrypted Data]'' else Str v)"

text \<open>
  The loop of \<^verbatim>\<open>decryptCitizenData\<close> and of \<^verbatim>\<open>decryptServiceRequestData\<close>. The call
  of \<^verbatim>\<open>decryptData\<close> is inside a \<^verbatim>\<open>try\<close> whose \<^verbatim>\<open>catch\<close> writes the fallback label, so
  the loop goes on after an error.
\<close>

fun decrypt_fields ::
  "(string \<times> string) list \<Rightarrow> string list \<Rightarrow> obj \<Rightarrow> obj \<Rightarrow> service \<Rightarrow> world \<Rightarrow> obj io" where
  "decrypt_fields fbs [] src acc s w = (Inr acc, s, w)"
| "decrypt_fields fbs (field # rest) src acc s w =
     (if truthy (get src (encrypted_key field)) then
        (case decryptData (get src (encrypted_key field)) s w of
           (Inr v, s', w') \<Rightarrow>
             decrypt_fields fbs rest src
               (AList.delete (encrypted_key field) (AList.update field v acc)) s' w'
         | (Inl e, s', w') \<Rightarrow>
             decrypt_fields fbs rest src
               (AList.delete (encrypted_key field)
                  (AList.update field (fallback fbs field) acc)) s' w')
      else decrypt_fields fbs rest src acc s w)"

text \<open>
  The argument is \<open>None\<close> for a falsy one (\<^verbatim>\<open>null\<close>, a row that was not found), which
  is answered by \<^verbatim>\<open>null\<close>.
\<close>

definition decryptCitizenData :: "obj option \<Rightarrow> service \<Rightarrow> world \<Rightarrow> obj option io" where
  "decryptCitizenData encryptedCitizenData s w =
     (case encryptedCitizenData of
        None \<Rightarrow> (Inr None, s, w)
      | Some r \<Rightarrow>
          (case decrypt_fields citizens_fallbackValues citizens_sensitiveFields r r s w of
             (Inl e, s', w') \<Rightarrow> (Inl e, s', w')
           | (Inr decryptedData, s', w') \<Rightarrow> (Inr (Some decryptedData), s', w')))"

definition decryptServiceRequestData :: "obj option \<Rightarrow> service \<Rightarrow> world \<Rightarrow> obj option io" where
  "decryptServiceRequestData encryptedRequestData s w =
     (case encryptedRequestData of
        None \<Rightarrow> (Inr None, s, w)
      | Some r \<Rightarrow>
          (case decrypt_fields serviceRequests_fallbackValues serviceRequests_sensitiveFields
                  r r s w of
             (Inl e, s', w') \<Rightarrow> (Inl e, s', w')
           | (Inr decryptedData, s', w') \<Rightarrow> (Inr (Some decryptedData), s', w')))"

section \<open>The database wrappers\<close>

text \<open>
  \<^verbatim>\<open>runQuery\<close> of backend/database/db.js: a promise around \<^verbatim>\<open>db.run(sql, params, callback)\<close>.
  It hands the statement to the engine, rejects with the error the engine reports, and
  otherwise resolves to \<^verbatim>\<open>{ id: this.lastID, changes: this.changes }\<close>, here the pair of
  the two. The database is taken to be open (\<^verbatim>\<open>initializeDatabase\<close> has run).
\<close>

definition runQuery ::
  "statement \<Rightarrow> jsval list \<Rightarrow> world \<Rightarrow> (error + int \<times> int) \<times> world" where
  "runQuery sql params w =
     (let w' = w\<lparr>statements := statements w @ [(sql, params)]\<rparr>
      in case db_replies w of
           [] \<Rightarrow> (Inl QueryFailed, w')
         | None # rs \<Rightarrow> (Inl QueryFailed, w'\<lparr>db_replies := rs\<rparr>)
         | Some (lastID, changes) # rs \<Rightarrow> (Inr (lastID, changes), w'\<lparr>db_replies := rs\<rparr>))"

text \<open>\<^verbatim>\<open>{ id: result.id, ...data }\<close>\<close>

definition with_id :: "int \<Rightarrow> obj \<Rightarrow> obj" where
  "with_id i data = foldl (\<lambda>acc (k, v). AList.update k v acc) [(''id'', Num i)] data"

definition citizen_columns :: "string list" where
  "citizen_columns =
     [''citizenId'', ''firstName_encrypted'', ''lastName_encrypted'', ''email_encrypted'',
      ''phone_encrypted'', ''address_encrypted'', ''zipCode_encrypted'',
      ''dateOfBirth_encrypted'', ''city'', ''state'']"

definition serviceRequest_columns :: "string list" where
  "serviceRequest_columns =
     [''requestNumber'', ''citizenId'', ''serviceTypeId'', ''status'', ''priority'',
      ''assignedAgent'', ''notes_encrypted'', ''applicationData_encrypted'']"

text \<open>
  \<^verbatim>\<open>encryptedCitizenService.create\<close>: encrypt, then insert (the parameters are the
  entries of the encrypted record for the columns, in the order of the statement), then
  answer the plain entity with \<^verbatim>\<open>result.id\<close>.
\<close>

definition citizen_create :: "obj \<Rightarrow> service \<Rightarrow> world \<Rightarrow> obj io" where
  "citizen_create citizenData s w =
     (case encryptCitizenData citizenData s w of
        (Inl e, s', w') \<Rightarrow> (Inl e, s', w')
      | (Inr encryptedData, s', w') \<Rightarrow>
          (case runQuery (InsertInto ''citizens'' citizen_columns)
                  (map (get encryptedData) citizen_columns) w' of
             (Inl e, w'') \<Rightarrow> (Inl e, s', w'')
           | (Inr (i, changes), w'') \<Rightarrow> (Inr (with_id i citizenData), s', w'')))"

text \<open>\<^verbatim>\<open>encryptedServiceRequestService.create\<close>\<close>

definition serviceRequest_create :: "obj \<Rightarrow> service \<Rightarrow> world \<Rightarrow> obj io" where
  "serviceRequest_create requestData s w =
     (case encryptServiceRequestData requestData s w of
        (Inl e, s', w') \<Rightarrow> (Inl e, s', w')
      | (Inr encryptedData, s', w') \<Rightarrow>
          (case runQuery (InsertInto ''service_requests'' serviceRequest_columns)
                  (map (get encryptedData) serviceRequest_columns) w' of
             (Inl e, w'') \<Rightarrow> (Inl e, s', w'')
           | (Inr (i, changes), w'') \<Rightarrow> (Inr (with_id i requestData), s', w'')))"

section \<open>Vocabulary of the properties\<close>

text \<open>The authentication exchanges among the requests a world has seen.\<close>

fun is_auth_request :: "request \<Rightarrow> bool" where
  "is_auth_request (AuthRequest _) = True"
| "is_auth_request _ = False"

definition auth_exchanges :: "world \<Rightarrow> nat" where
  "auth_exchanges w = length (filter is_auth_request (requests w))"

text \<open>
  The envelope shape in the words of the specification: the text parses as a JSON object
  that contains a key \<^verbatim>\<open>cipher\<close> and a key \<^verbatim>\<open>iv\<close>. (The test of \<open>parse_envelope\<close> is
  the one of the code, which also wants both values truthy.)
\<close>

definition parses_as_cipher_iv_object :: "string \<Rightarrow> bool" where
  "parses_as_cipher_iv_object s =
     (case JSON_parse s of
        Some (JObj ms) \<Rightarrow>
          code_units ''cipher'' \<in> fst ` set ms \<and> code_units ''iv'' \<in> fst ` set ms
      | _ \<Rightarrow> False)"

text \<open>No field of a list is the \<^verbatim>\<open>_encrypted\<close> key of a field of the list.\<close>

definition no_clash :: "string list \<Rightarrow> bool" where
  "no_clash fs = (\<forall>f\<in>set fs. \<forall>g\<in>set fs. f \<noteq> encrypted_key g)"

section \<open>Concrete services, worlds and records\<close>

text \<open>
  A world in which the key-management service cannot be reached; one in which it answers
  the session request only; one in which it also encrypts one value and rejects the next.
  In each the database would accept the next statement, as the row with id 11.
\<close>

definition world0 :: world where
  "world0 = \<lparr> now = 1700000000000, files = [], auth_replies = [], encrypt_replies = [],
              decrypt_replies = [], requests = [], db_replies = [Some (11, 1)],
              statements = [] \<rparr>"

definition world_up :: world where
  "world_up = world0\<lparr>auth_replies := [Some (Str ''token-1'', 600)]\<rparr>"

definition world_partial :: world where
  "world_partial =
     world0\<lparr>auth_replies := [Some (Str ''token-1'', 600)],
            encrypt_replies := [Some (''Y2lwaGVy'', ''aXY=''), None]\<rparr>"

definition auth_url :: string where
  "auth_url = ''https://amer.smartkey.io/sys/v1/session/auth''"

definition encrypt_url :: string where
  "encrypt_url = ''https://amer.smartkey.io/crypto/v1/encrypt''"

definition decrypt_url :: string where
  "decrypt_url = ''https://amer.smartkey.io/crypto/v1/decrypt''"

text \<open>
  A service configured with the placeholder key of the sample configuration and one
  with a key that does not look like a placeholder, each before and after its first
  authentication at the time of \<open>world0\<close>.
\<close>

definition demo_service :: service where
  "demo_service = new_service [(''FORTANIX_API_KEY'', ''your-api-key-here'')]"

definition demo_session :: service where
  "demo_session =
     demo_service\<lparr>accessToken := Str ''demo-access-token'',
                  tokenExpiry := Some 1700003600000, demoMode := True\<rparr>"

definition real_service :: service where
  "real_service =
     new_service [(''FORTANIX_API_KEY'', ''MDEyMzQ1Njc4OWFiY2RlZg==''),
                  (''FORTANIX_KEY_ID'', ''key-1'')]"

definition token_session :: service where
  "token_session =
     real_service\<lparr>accessToken := Str ''token-1'',
                  tokenExpiry := Some 1700000600000, demoMode := False\<rparr>"

text \<open>What the demo-mode \<^verbatim>\<open>encryptData\<close> makes of \<^verbatim>\<open>John\<close> at the time of \<open>world0\<close>.\<close>

definition john_cipher :: string where
  "john_cipher = ''ZW5jcnlwdGVkOkpvaG46MTcwMDAwMDAwMDAwMA==''"

text \<open>An envelope as a stored text.\<close>

definition envelope_ab :: string where
  \<open>envelope_ab = ''{"cipher":"a","iv":"b"}''\<close>

text \<open>
  A citizen as the route hands it to \<^verbatim>\<open>create\<close>, and the record after its first
  sensitive field has been encrypted in \<open>world_partial\<close>.
\<close>

definition john :: obj where
  "john = [(''citizenId'', Str ''CIT-1''), (''firstName'', Str ''John''),
           (''lastName'', Str ''Smith''), (''city'', Str ''Springfield'')]"

definition john_first_done :: obj where
  "john_first_done =
     [(''citizenId'', Str ''CIT-1''), (''lastName'', Str ''Smith''),
      (''city'', Str ''Springfield''),
      (''firstName_encrypted'', Str (stringify_envelope ''Y2lwaGVy'' ''aXY=''))]"

text \<open>
  A service request as the route builds it when the client sent no notes
  (\<^verbatim>\<open>notes: sanitizeInput(req.body.notes) || ''\<close>), and what is stored for it in demo mode.
\<close>

definition request1 :: obj where
  "request1 =
     [(''requestNumber'', Str ''SR-2024-001''), (''citizenId'', Num 1),
      (''status'', Str ''submitted''), (''notes'', Str ''''),
      (''applicationData'', Str ''{}'')]"

definition request1_stored :: obj where
  "request1_stored =
     [(''requestNumber'', Str ''SR-2024-001''), (''citizenId'', Num 1),
      (''status'', Str ''submitted''), (''notes'', Str ''''),
      (''applicationData_encrypted'', Str ''ZW5jcnlwdGVkOnt9OjE3MDAwMDAwMDAwMDA='')]"

text \<open>
  A row of the citizens table: a legacy first name, an envelope for the last name, no
  phone (\<^verbatim>\<open>NULL\<close>) and an empty e-mail column. Then the row as it is read while the
  service answers the session request but not the decrypt request, and as it is read
  while the service cannot be reached at all.
\<close>

definition row1 :: obj where
  "row1 =
     [(''citizenId'', Str ''CIT-1''), (''firstName_encrypted'', Str ''not-json''),
      (''lastName_encrypted'', Str envelope_ab), (''phone_encrypted'', Null),
      (''email_encrypted'', Str ''''), (''city'', Str ''Springfield'')]"

definition row1_read :: obj where
  "row1_read =
     [(''citizenId'', Str ''CIT-1''), (''phone_encrypted'', Null),
      (''email_encrypted'', Str ''''), (''city'', Str ''Springfield''),
      (''firstName'', Str ''not-json''), (''lastName'', Str ''[Data]'')]"

definition row1_first_failed :: obj where
  "row1_first_failed =
     [(''citizenId'', Str ''CIT-1''), (''lastName_encrypted'', Str envelope_ab),
      (''phone_encrypted'', Null), (''email_encrypted'', Str ''''),
      (''city'', Str ''Springfield''), (''firstName'', Str ''[Encrypted]'')]"

definition row1_unreachable :: obj where
  "row1_unreachable =
     [(''citizenId'', Str ''CIT-1''), (''phone_encrypted'', Null),
      (''email_encrypted'', Str ''''), (''city'', Str ''Springfield''),
      (''firstName'', Str ''[Encrypted]''), (''lastName'', Str ''[Data]'')]"

section \<open>Properties of the parser\<close>

text \<open>
  Every parser returns a rest that is shorter than its input. So the comparisons of
  lengths in \<open>parse_elems\<close> and \<open>parse_members\<close> never fail, and both satisfy the
  equations without them.
\<close>

lemma skip_ws_length: "length (skip_ws cs) \<le> length cs"
  by (induction cs) auto

lemma skip_ws_Cons: "skip_ws cs = d # ds \<Longrightarrow> length ds < length cs"
  using skip_ws_length [of cs] by simp

lemma parse_string_length: "parse_string cs acc = Some (u, r) \<Longrightarrow> length r < length cs"
proof (induction cs arbitrary: acc rule: length_induct)
  case (1 xs)
  have step: "length ys < length xs \<longrightarrow> length r < length ys"
    if "parse_string ys acc' = Some (u, r)" for ys acc'
    using 1(1) that by blast
  show ?case
  proof (cases xs)
    case Nil
    with 1(2) show ?thesis by simp
  next
    case (Cons c cs)
    with 1(2) show ?thesis
      by (auto split: if_splits list.splits option.splits dest!: step)
  qed
qed

lemma parse_fraction_length: "parse_fraction cs = Some (fs, r) \<Longrightarrow> length r \<le> length cs"
  by (auto simp: parse_fraction_def Let_def split: list.splits if_splits
           intro: le_trans [OF length_dropWhile_le])

lemma parse_exponent_length: "parse_exponent cs = Some (e, r) \<Longrightarrow> length r \<le> length cs"
  by (auto simp: parse_exponent_def Let_def split: list.splits if_splits prod.splits
           intro: le_trans [OF length_dropWhile_le] le_SucI)

lemma dropWhile_shorter: "takeWhile P xs \<noteq> [] \<Longrightarrow> length (dropWhile P xs) < length xs"
  by (cases xs) (auto split: if_splits intro: le_imp_less_Suc length_dropWhile_le)

lemma parse_number_length:
  assumes "parse_number cs = Some (v, r)"
  shows "length r < length cs"
proof -
  obtain neg r0 where n: "(case cs of [] \<Rightarrow> (False, cs)
                       | c # r \<Rightarrow> if c = CHR ''-'' then (True, r) else (False, cs)) = (neg, r0)"
    by (cases "(case cs of [] \<Rightarrow> (False, cs)
                       | c # r \<Rightarrow> if c = CHR ''-'' then (True, r) else (False, cs))") auto
  then have r0: "length r0 \<le> length cs" by (auto split: list.splits if_splits)
  from assms n have ds: "takeWhile is_digit r0 \<noteq> []"
    by (auto simp: parse_number_def Let_def split: if_splits)
  from assms n obtain fs r2 e where
    f: "parse_fraction (dropWhile is_digit r0) = Some (fs, r2)" and
    x: "parse_exponent r2 = Some (e, r)"
    by (auto simp: parse_number_def Let_def split: if_splits option.splits)
  from parse_fraction_length [OF f] parse_exponent_length [OF x] dropWhile_shorter [OF ds] r0
  show ?thesis by simp
qed

lemma parse_consumes:
  "(\<forall>v r. parse_value cs = Some (v, r) \<longrightarrow> length r < length cs)"
  "(\<forall>vs r. parse_elems cs = Some (vs, r) \<longrightarrow> length r < length cs)"
  "(\<forall>ms r. parse_members cs = Some (ms, r) \<longrightarrow> length r < length cs)"
proof (induction cs and cs and cs rule: parse_value_parse_elems_parse_members.induct)
  case 1
  then show ?case by simp
next
  case (2 c cs)
  show ?case
  proof (intro allI impI)
    fix v r
    assume a: "parse_value (c # cs) = Some (v, r)"
    show "length r < length (c # cs)"
    proof (cases "is_ws c")
      case True
      with a 2(1) show ?thesis by auto
    next
      case ws: False
      show ?thesis
      proof (cases "c = CHR ''{''")
        case True
        with a ws 2(2) show ?thesis
          by (auto split: list.splits if_splits option.splits dest!: skip_ws_Cons)
      next
        case nb: False
        show ?thesis
        proof (cases "c = CHR ''[''")
          case True
          with a ws nb 2(3) show ?thesis
            by (auto split: list.splits if_splits option.splits dest!: skip_ws_Cons)
        next
          case False
          with a ws nb show ?thesis
            by (auto split: if_splits option.splits
                     dest!: parse_string_length parse_number_length)
        qed
      qed
    qed
  qed
next
  case (3 cs)
  show ?case
  proof (intro allI impI)
    fix vs r
    assume a: "parse_elems cs = Some (vs, r)"
    then obtain v r1 where v: "parse_value cs = Some (v, r1)"
      by (auto split: option.splits)
    with 3(1) have l1: "length r1 < length cs" by simp
    from a v obtain d ds where d: "skip_ws r1 = d # ds"
      by (auto split: list.splits)
    from skip_ws_Cons [OF d] l1 have l2: "length ds < length cs" by simp
    show "length r < length cs"
    proof (cases "d = CHR '']''")
      case True
      with a v d l2 show ?thesis by simp
    next
      case False
      with a v d l2 have c: "d = CHR '',''" by (auto split: if_splits)
      with a v d l2 False obtain vs' where "parse_elems ds = Some (vs', r)"
        by (auto split: option.splits)
      with 3(2) [OF v refl d False] c l2 have "length r < length ds" by simp
      with l2 show ?thesis by simp
    qed
  qed
next
  case (4 cs)
  show ?case
  proof (intro allI impI)
    fix ms r
    assume a: "parse_members cs = Some (ms, r)"
    then obtain q ks where q: "skip_ws cs = q # ks" by (auto split: list.splits)
    with a have qq: "q = CHR 0x22" by (auto split: if_splits)
    from skip_ws_Cons [OF q] have l0: "length ks < length cs" .
    from a q qq obtain k r1 where k: "parse_string ks [] = Some (k, r1)"
      by (auto split: option.splits)
    from parse_string_length [OF k] l0 have l1: "length r1 < length cs" by simp
    from a q qq k obtain d ds where d: "skip_ws r1 = d # ds" by (auto split: list.splits)
    from skip_ws_Cons [OF d] l1 have l2: "length ds < length cs" by simp
    from a q qq k d have dc: "d = CHR '':''" by (auto split: if_splits)
    from a q qq k d dc l2 obtain v r2 where v: "parse_value ds = Some (v, r2)"
      by (auto split: option.splits)
    from 4(1) [OF q qq k refl d] dc l2 v have l3: "length r2 < length ds" by simp
    from a q qq k d dc l2 v obtain x xs where x: "skip_ws r2 = x # xs"
      by (auto split: list.splits)
    from skip_ws_Cons [OF x] l3 l2 have l4: "length xs < length cs" by simp
    show "length r < length cs"
    proof (cases "x = CHR ''}''")
      case True
      with a q qq k d dc l2 v x l4 show ?thesis by simp
    next
      case False
      with a q qq k d dc l2 v x l4 have xc: "x = CHR '',''" by (auto split: if_splits)
      with a q qq k d dc l2 v x l4 False obtain ms' where m: "parse_members xs = Some (ms', r)"
        by (auto split: option.splits)
      from 4(2) [OF q qq k refl d _ v refl x False] dc l2 xc l4 m
      have "length r < length xs" by simp
      with l4 show ?thesis by simp
    qed
  qed
qed


lemma parse_elems_unguarded:
  "parse_elems cs =
     (case parse_value cs of
        None \<Rightarrow> None
      | Some (v, r) \<Rightarrow>
          (case skip_ws r of
             [] \<Rightarrow> None
           | d # ds \<Rightarrow>
               if d = CHR '']'' then Some ([v], ds)
               else if d = CHR '','' then
                 (case parse_elems ds of
                    None \<Rightarrow> None
                  | Some (vs, r') \<Rightarrow> Some (v # vs, r'))
               else None))"
proof -
  have "length ds < length cs"
    if "parse_value cs = Some (v, r)" "skip_ws r = d # ds" for v r d ds
    using parse_consumes(1) [of cs] skip_ws_Cons [OF that(2)] that(1) by auto
  then show ?thesis
    by (subst parse_elems.simps) (simp split: option.splits prod.splits list.splits)
qed

lemma parse_members_unguarded:
  "parse_members cs =
     (case skip_ws cs of
        [] \<Rightarrow> None
      | q # ks \<Rightarrow>
          if q = CHR 0x22 then
            (case parse_string ks [] of
               None \<Rightarrow> None
             | Some (k, r) \<Rightarrow>
                 (case skip_ws r of
                    [] \<Rightarrow> None
                  | d # ds \<Rightarrow>
                      if d = CHR '':'' then
                        (case parse_value ds of
                           None \<Rightarrow> None
                         | Some (v, r') \<Rightarrow>
                             (case skip_ws r' of
                                [] \<Rightarrow> None
                              | x # xs \<Rightarrow>
                                  if x = CHR ''}'' then Some ([(k, v)], xs)
                                  else if x = CHR '','' then
                                    (case parse_members xs of
                                       None \<Rightarrow> None
                                     | Some (ms, r'') \<Rightarrow> Some ((k, v) # ms, r''))
                                  else None))
                      else None))
          else None)"
proof -
  have a: "length ds < length cs"
    if "skip_ws cs = q # ks" "parse_string ks [] = Some (k, r)" "skip_ws r = d # ds"
    for q ks k r d ds
    using skip_ws_Cons [OF that(1)] parse_string_length [OF that(2)] skip_ws_Cons [OF that(3)]
    by simp
  have b: "length xs < length cs"
    if "skip_ws cs = q # ks" "parse_string ks [] = Some (k, r)" "skip_ws r = d # ds"
      "parse_value ds = Some (v, r')" "skip_ws r' = x # xs"
    for q ks k r d ds v r' x xs
    using a [OF that(1,2,3)] parse_consumes(1) [of ds] that(4) skip_ws_Cons [OF that(5)]
    by auto
  show ?thesis
    by (subst parse_members.simps)
       (simp add: a b split: option.splits prod.splits list.splits)
qed

section \<open>Properties of the HSM client\<close>

subsection \<open>Substring search\<close>

lemma starts_with_iff: "starts_with k sub \<longleftrightarrow> (\<exists>q. k = sub @ q)"
  by (induction k sub rule: starts_with.induct) auto

lemma includes_str_iff: "includes_str k sub \<longleftrightarrow> (\<exists>p q. k = p @ sub @ q)"
proof (induction k)
  case Nil
  then show ?case by simp
next
  case (Cons c cs)
  show ?case
  proof
    assume "includes_str (c # cs) sub"
    then consider "starts_with (c # cs) sub" | "includes_str cs sub" by auto
    then show "\<exists>p q. c # cs = p @ sub @ q"
    proof cases
      case 1
      then obtain q where "c # cs = sub @ q" by (auto simp: starts_with_iff)
      then have "c # cs = [] @ sub @ q" by simp
      then show ?thesis by blast
    next
      case 2
      then obtain p q where "cs = p @ sub @ q" using Cons.IH by auto
      then have "c # cs = (c # p) @ sub @ q" by simp
      then show ?thesis by blast
    qed
  next
    assume "\<exists>p q. c # cs = p @ sub @ q"
    then obtain p q where pq: "c # cs = p @ sub @ q" by blast
    show "includes_str (c # cs) sub"
    proof (cases p)
      case Nil
      then have "starts_with (c # cs) sub" using pq by (simp add: starts_with_iff)
      then show ?thesis by simp
    next
      case (Cons a p')
      then have "cs = p' @ sub @ q" using pq by simp
      then show ?thesis using Cons.IH by auto
    qed
  qed
qed

subsection \<open>Authentication\<close>

text \<open>
  C10. With the API-key method and \<^verbatim>\<open>FORTANIX_API_KEY\<close> unset, \<^verbatim>\<open>this.apiKey\<close> is
  \<^verbatim>\<open>undefined\<close> and \<^verbatim>\<open>authenticate()\<close> rejects with the TypeError of
  \<^verbatim>\<open>this.apiKey.includes(...)\<close>: the service and the world are as before, so the check
  for an empty key was not reached and no request was sent. The empty string, which is
  defined, does enter demo mode; an authentication that switches demo mode on had a
  defined key. A service built from an empty environment therefore gets the error
  instead of demo mode.
\<close>

theorem authenticate_absent_key:
  "(authMethod s = ''api_key'' \<and> apiKey s = None \<longrightarrow> authenticate s w = (Inl TypeError, s, w))
   \<and> (authMethod s = ''api_key'' \<and> apiKey s = Some [] \<longrightarrow>
        (\<exists>t s'. authenticate s w = (Inr t, s', w) \<and> demoMode s'))
   \<and> (authMethod s = ''api_key'' \<and> authenticate s w = (r, s', w') \<and> demoMode s' \<and> \<not> demoMode s
        \<longrightarrow> apiKey s \<noteq> None)
   \<and> authenticate (new_service []) w = (Inl TypeError, new_service [], w)"
  by (auto simp: authenticate_def authenticateWithAPIKey_def new_service_def env_or_def
           split: option.splits)

theorem authenticate_absent_key_witness:
  "authMethod (new_service []) = ''api_key'' \<and> apiKey (new_service []) = None
   \<and> authenticate (new_service []) world0 = (Inl TypeError, new_service [], world0)
   \<and> requests world0 = []"
  using authenticate_absent_key [of "new_service []" world0]
  by (simp add: new_service_def env_or_def world0_def)

lemma authenticate_demo_key:
  assumes "authMethod s \<noteq> ''trusted_ca''"
    and "apiKey s = Some k"
    and "k = [] \<or> length k < 10 \<or> includes_str k ''fff-ff-ff-ff-ff-f'' \<or> includes_str k ''your-''"
  shows "authenticate s w =
           (Inr (Str ''demo-access-token''),
            s\<lparr>accessToken := Str ''demo-access-token'',
              tokenExpiry := Some (now w + 3600000),
              demoMode := True\<rparr>, w)"
  using assms by (auto simp: authenticate_def authenticateWithAPIKey_def)

text \<open>
  C9. On the API-key path, a key that is empty, shorter than ten characters, or that
  contains \<^verbatim>\<open>fff-ff-ff-ff-ff-f\<close> or \<^verbatim>\<open>your-\<close> makes \<^verbatim>\<open>authenticate()\<close> resolve to the
  sentinel token \<^verbatim>\<open>demo-access-token\<close>, with that token stored, the expiry one hour
  (3600000 ms) after the current time and \<open>demoMode\<close> set; the world is returned as it
  was, so no request was sent. The key \<^verbatim>\<open>your-api-key-here\<close> is such a key.
\<close>

theorem demo_mode_detection:
  assumes "authMethod s \<noteq> ''trusted_ca''"
    and "apiKey s = Some k"
    and "k = [] \<or> length k < 10 \<or> includes_str k ''fff-ff-ff-ff-ff-f'' \<or> includes_str k ''your-''"
  shows "authenticate s w =
           (Inr (Str ''demo-access-token''),
            s\<lparr>accessToken := Str ''demo-access-token'',
              tokenExpiry := Some (now w + 3600000),
              demoMode := True\<rparr>, w)"
proof -
  from assms(2,3) have "authenticateWithAPIKey s w =
           (Inr (Str ''demo-access-token''),
            s\<lparr>accessToken := Str ''demo-access-token'',
              tokenExpiry := Some (now w + 3600000),
              demoMode := True\<rparr>, w)"
    by (auto simp: authenticateWithAPIKey_def)
  with assms(1) show ?thesis by (simp add: authenticate_def)
qed

theorem demo_mode_detection_witness:
  "authMethod demo_service \<noteq> ''trusted_ca''
   \<and> apiKey demo_service = Some ''your-api-key-here''
   \<and> includes_str ''your-api-key-here'' ''your-''
   \<and> authenticate demo_service world0 = (Inr (Str ''demo-access-token''), demo_session, world0)"
proof -
  have a: "authMethod demo_service \<noteq> ''trusted_ca''"
    by (simp add: demo_service_def new_service_def env_or_def)
  have b: "apiKey demo_service = Some ''your-api-key-here''"
    by (simp add: demo_service_def new_service_def env_or_def)
  have c: "includes_str ''your-api-key-here'' ''your-''" by simp
  have "now world0 + 3600000 = 1700003600000" by (simp add: world0_def)
  then show ?thesis
    using demo_mode_detection [OF a b, of world0] a b c by (simp add: demo_session_def)
qed

subsection \<open>The session\<close>

lemma post_auth_requests:
  "post_auth url w = (r, w') \<Longrightarrow> requests w' = requests w @ [AuthRequest url]"
  by (auto simp: post_auth_def Let_def split: list.splits option.splits)

lemma authenticate_Inr:
  assumes "authenticate s w = (Inr tok, s1, w1)"
  shows "accessToken s1 = tok"
    and "demoMode s1 \<Longrightarrow> w1 = w"
    and "\<not> demoMode s1 \<Longrightarrow>
           requests w1 = requests w @ [AuthRequest (endpoint s @ ''/sys/v1/session/auth'')]"
  using assms
  by (auto simp: authenticate_def authenticateWithAPIKey_def authenticateWithTrustedCA_def
           dest: post_auth_requests
           split: if_splits option.splits prod.splits sum.splits)

lemma ensureAuthenticated_Inr:
  assumes "ensureAuthenticated s w = (Inr tok, s1, w1)"
  shows "accessToken s1 = tok"
  using assms authenticate_Inr(1)
  by (fastforce simp: ensureAuthenticated_def split: if_splits prod.splits sum.splits)

text \<open>
  C8. \<^verbatim>\<open>ensureAuthenticated\<close> answers with the stored token, leaving the service and the
  world untouched, when a token exists and the current time is more than 60000 ms
  before \<open>tokenExpiry\<close>; only otherwise does it call \<^verbatim>\<open>authenticate()\<close>. Hence, after a
  call that resolved to a token, a second call made while that token has more than 60
  seconds left resolves to the same token and sends nothing; and when the first call had
  to authenticate and did so against the remote service, the two calls together add
  exactly one authentication exchange to the requests sent.
\<close>

theorem session_reuse:
  "(truthy (accessToken s) \<and> now w < expiry_number (tokenExpiry s) - 60000 \<longrightarrow>
      ensureAuthenticated s w = (Inr (accessToken s), s, w))
   \<and> (\<not> (truthy (accessToken s) \<and> now w < expiry_number (tokenExpiry s) - 60000) \<longrightarrow>
      ensureAuthenticated s w =
        (case authenticate s w of
           (Inl e, s', w') \<Rightarrow> (Inl e, s', w')
         | (Inr t, s', w') \<Rightarrow> (Inr (accessToken s'), s', w')))
   \<and> (ensureAuthenticated s w = (Inr tok, s1, w1) \<and> truthy tok
        \<and> now w2 < expiry_number (tokenExpiry s1) - 60000 \<longrightarrow>
      ensureAuthenticated s1 w2 = (Inr tok, s1, w2))
   \<and> (ensureAuthenticated s w = (Inr tok, s1, w1) \<and> truthy tok
        \<and> \<not> (truthy (accessToken s) \<and> now w < expiry_number (tokenExpiry s) - 60000)
        \<and> \<not> demoMode s1 \<and> requests w2 = requests w1
        \<and> now w2 < expiry_number (tokenExpiry s1) - 60000 \<longrightarrow>
      (\<exists>s2 w3. ensureAuthenticated s1 w2 = (Inr tok, s2, w3)
          \<and> auth_exchanges w3 = auth_exchanges w + 1))"
proof (intro conjI impI)
  assume "truthy (accessToken s) \<and> now w < expiry_number (tokenExpiry s) - 60000"
  then show "ensureAuthenticated s w = (Inr (accessToken s), s, w)"
    by (simp add: ensureAuthenticated_def)
next
  assume "\<not> (truthy (accessToken s) \<and> now w < expiry_number (tokenExpiry s) - 60000)"
  then show "ensureAuthenticated s w =
        (case authenticate s w of
           (Inl e, s', w') \<Rightarrow> (Inl e, s', w')
         | (Inr t, s', w') \<Rightarrow> (Inr (accessToken s'), s', w'))"
    by (auto simp: ensureAuthenticated_def)
next
  assume a: "ensureAuthenticated s w = (Inr tok, s1, w1) \<and> truthy tok
        \<and> now w2 < expiry_number (tokenExpiry s1) - 60000"
  then have "accessToken s1 = tok" using ensureAuthenticated_Inr by blast
  with a show "ensureAuthenticated s1 w2 = (Inr tok, s1, w2)"
    by (simp add: ensureAuthenticated_def)
next
  assume a: "ensureAuthenticated s w = (Inr tok, s1, w1) \<and> truthy tok
        \<and> \<not> (truthy (accessToken s) \<and> now w < expiry_number (tokenExpiry s) - 60000)
        \<and> \<not> demoMode s1 \<and> requests w2 = requests w1
        \<and> now w2 < expiry_number (tokenExpiry s1) - 60000"
  then have tok: "accessToken s1 = tok" using ensureAuthenticated_Inr by blast
  from a obtain t where auth: "authenticate s w = (Inr t, s1, w1)"
    by (auto simp: ensureAuthenticated_def split: prod.splits sum.splits if_splits)
  from a have "requests w1 = requests w @ [AuthRequest (endpoint s @ ''/sys/v1/session/auth'')]"
    using authenticate_Inr(3) [OF auth] by simp
  then have "auth_exchanges w2 = auth_exchanges w + 1"
    using a by (simp add: auth_exchanges_def)
  moreover have "ensureAuthenticated s1 w2 = (Inr tok, s1, w2)"
    using a tok by (simp add: ensureAuthenticated_def)
  ultimately show "\<exists>s2 w3. ensureAuthenticated s1 w2 = (Inr tok, s2, w3)
          \<and> auth_exchanges w3 = auth_exchanges w + 1"
    by blast
qed

lemma first_authentication:
  "ensureAuthenticated real_service world_up =
     (Inr (Str ''token-1''), token_session, world0\<lparr>requests := [AuthRequest auth_url]\<rparr>)"
  by code_simp

text \<open>
  The first call authenticates (one request); the second, 500 seconds later and 40
  seconds before the safety margin begins, sends nothing.
\<close>

theorem session_reuse_witness:
  "ensureAuthenticated real_service world_up =
     (Inr (Str ''token-1''), token_session, world0\<lparr>requests := [AuthRequest auth_url]\<rparr>)
   \<and> truthy (Str ''token-1'') \<and> \<not> truthy (accessToken real_service) \<and> \<not> demoMode token_session
   \<and> now (world0\<lparr>now := 1700000500000, requests := [AuthRequest auth_url]\<rparr>)
       < expiry_number (tokenExpiry token_session) - 60000
   \<and> ensureAuthenticated token_session
        (world0\<lparr>now := 1700000500000, requests := [AuthRequest auth_url]\<rparr>) =
       (Inr (Str ''token-1''), token_session,
        world0\<lparr>now := 1700000500000, requests := [AuthRequest auth_url]\<rparr>)
   \<and> auth_exchanges world_up = 0
   \<and> auth_exchanges (world0\<lparr>now := 1700000500000, requests := [AuthRequest auth_url]\<rparr>) = 1"
  using session_reuse [of real_service world_up "Str ''token-1''" token_session
      "world0\<lparr>requests := [AuthRequest auth_url]\<rparr>"
      "world0\<lparr>now := 1700000500000, requests := [AuthRequest auth_url]\<rparr>"]
    first_authentication
  by (simp add: token_session_def real_service_def new_service_def env_or_def world_up_def
        world0_def expiry_number_def auth_exchanges_def)

subsection \<open>Demo mode\<close>

text \<open>
  With a placeholder key and demo mode active, \<^verbatim>\<open>ensureAuthenticated\<close> and
  \<^verbatim>\<open>encryptData\<close> leave the world as it is: they send no request.
\<close>

lemma demo_ensureAuthenticated:
  assumes "authMethod s \<noteq> ''trusted_ca''"
    and "apiKey s = Some k"
    and "k = [] \<or> length k < 10 \<or> includes_str k ''fff-ff-ff-ff-ff-f'' \<or> includes_str k ''your-''"
    and "demoMode s"
    and "ensureAuthenticated s w = (r, s', w')"
  shows "w' = w \<and> demoMode s' \<and> (\<exists>t. r = Inr t)"
  using assms(4,5) authenticate_demo_key [OF assms(1,2,3), of w]
  by (auto simp: ensureAuthenticated_def split: if_splits)

lemma demo_encryptData_offline:
  assumes "authMethod s \<noteq> ''trusted_ca''"
    and "apiKey s = Some k"
    and "k = [] \<or> length k < 10 \<or> includes_str k ''fff-ff-ff-ff-ff-f'' \<or> includes_str k ''your-''"
    and "demoMode s"
    and "encryptData p s w = (r, s', w')"
  shows "w' = w"
proof (cases "truthy p")
  case False
  with assms(5) show ?thesis by (simp add: encryptData_def catch_as_def)
next
  case True
  obtain r1 s1 w1 where e: "ensureAuthenticated s w = (r1, s1, w1)"
    by (cases "ensureAuthenticated s w") auto
  from demo_ensureAuthenticated [OF assms(1,2,3,4) e] obtain t where
    "w1 = w" "demoMode s1" "r1 = Inr t" by blast
  with True e assms(5) show ?thesis by (simp add: encryptData_def catch_as_def)
qed

text \<open>
  The text that the demo-mode \<^verbatim>\<open>encryptData\<close> produces begins with the base64 of
  \<^verbatim>\<open>encrypted:\<close>, so it is not JSON, and it is longer than the plaintext. Hence in
  demo mode, for every non-empty plaintext, \<^verbatim>\<open>decryptData\<close> of the encrypted text is
  that text again and never the plaintext.
\<close>

lemma utf8_length: "length s \<le> length (utf8 s)"
  by (induction s) (auto simp: Let_def)

lemma base64_length: "length bs \<le> length (base64 bs)"
  by (induction bs rule: base64.induct) auto

lemma demo_cipher_not_json: "JSON_parse (base64 (utf8 (''encrypted:'' @ x))) = None"
  by (simp add: JSON_parse_def b64_def b64_alphabet_def is_ws_def is_digit_def)

lemma demo_cipher_longer: "length p < length (base64 (utf8 (''encrypted:'' @ p @ x)))"
proof -
  have "length (''encrypted:'' @ p @ x) \<le> length (base64 (utf8 (''encrypted:'' @ p @ x)))"
    using utf8_length base64_length le_trans by blast
  then show ?thesis by simp
qed

lemma demo_ensureAuthenticated_stable:
  assumes "authMethod s \<noteq> ''trusted_ca''"
    and "apiKey s = Some k"
    and "k = [] \<or> length k < 10 \<or> includes_str k ''fff-ff-ff-ff-ff-f'' \<or> includes_str k ''your-''"
    and "demoMode s"
  shows "\<exists>t s'. ensureAuthenticated s w = (Inr t, s', w) \<and> demoMode s'
            \<and> ensureAuthenticated s' w = (Inr t, s', w)"
  using assms(4) authenticate_demo_key [OF assms(1,2,3), of w]
  by (auto simp: ensureAuthenticated_def expiry_number_def)

lemma demo_round_trip_never:
  assumes "authMethod s \<noteq> ''trusted_ca''"
    and "apiKey s = Some k"
    and "k = [] \<or> length k < 10 \<or> includes_str k ''fff-ff-ff-ff-ff-f'' \<or> includes_str k ''your-''"
    and "demoMode s"
    and "p \<noteq> []"
  shows "\<exists>c s'. encryptData (Str p) s w = (Inr (Str c), s', w)
           \<and> decryptData (Str c) s' w = (Inr (Str c), s', w) \<and> c \<noteq> p"
proof -
  from demo_ensureAuthenticated_stable [OF assms(1,2,3,4), of w] obtain t s' where
    e: "ensureAuthenticated s w = (Inr t, s', w)" "demoMode s'"
       "ensureAuthenticated s' w = (Inr t, s', w)"
    by blast
  define c where "c = base64 (utf8 (''encrypted:'' @ p @ '':'' @ show_int (now w)))"
  have len: "length p < length c"
    unfolding c_def by (rule demo_cipher_longer)
  have enc: "encryptData (Str p) s w = (Inr (Str c), s', w)"
    using e assms(5) by (simp add: encryptData_def catch_as_def c_def)
  from len have ne: "c \<noteq> []" by auto
  have "JSON_parse c = None"
    unfolding c_def by (rule demo_cipher_not_json)
  then have "parse_envelope c = None"
    by (simp add: parse_envelope_def)
  then have dec: "decryptData (Str c) s' w = (Inr (Str c), s', w)"
    using e ne by (simp add: decryptData_def catch_as_def)
  from len have "c \<noteq> p" by auto
  with enc dec show ?thesis by blast
qed

text \<open>
  C1. The round trip in demo mode, at the plaintext \<^verbatim>\<open>John\<close>: \<^verbatim>\<open>encryptData\<close> resolves to
  the base64 text of \<^verbatim>\<open>encrypted:John:1700000000000\<close>; \<^verbatim>\<open>decryptData\<close> of that text, in the
  same session, finds that it is not JSON and resolves to the very same text as legacy
  plaintext, not to \<^verbatim>\<open>John\<close>. The self-test of \<^verbatim>\<open>initialize()\<close>, which compares the
  decrypted text with the original, fails for the same reason.
\<close>

theorem demo_round_trip:
  "encryptData (Str ''John'') demo_service world0 = (Inr (Str john_cipher), demo_session, world0)
   \<and> demoMode demo_session
   \<and> decryptData (Str john_cipher) demo_session world0 =
       (Inr (Str john_cipher), demo_session, world0)
   \<and> Str john_cipher \<noteq> Str ''John''
   \<and> initialize demo_service world0 = (Inl SelfTestFailed, demo_session, world0)"
  by code_simp

text \<open>
  C2. In demo mode, \<^verbatim>\<open>decryptData\<close> of a text that parses as an object with a \<^verbatim>\<open>cipher\<close>
  and an \<^verbatim>\<open>iv\<close> sends a request to the decrypt endpoint of the remote service:
  \<^verbatim>\<open>decryptData\<close> has no demo-mode branch.
\<close>

theorem demo_decrypt_sends_request:
  "demoMode demo_session
   \<and> parses_as_cipher_iv_object envelope_ab
   \<and> decryptData (Str envelope_ab) demo_session world0 =
       (Inl DecryptFailed, demo_session,
        world0\<lparr>requests := [DecryptRequest decrypt_url None
                                (JStr (code_units ''a'')) (JStr (code_units ''b''))]\<rparr>)"
  by code_simp

subsection \<open>Legacy plaintext\<close>

lemma property_Some:
  "property d k = Inr (Some v) \<Longrightarrow> \<exists>ms. d = JObj ms \<and> code_units k \<in> fst ` set ms"
  by (cases d) (auto dest!: map_of_SomeD intro: rev_image_eqI)

lemma json_truthy_Some: "json_truthy c \<Longrightarrow> \<exists>v. c = Some v"
  by (cases c) auto

lemma parse_envelope_Some:
  assumes "parse_envelope s = Some (c, i)"
  shows "parses_as_cipher_iv_object s"
proof -
  from assms obtain d where d: "JSON_parse s = Some d"
    by (auto simp: parse_envelope_def split: option.splits)
  from assms d obtain c' i' where
    c: "property d ''cipher'' = Inr (Some c')" and i: "property d ''iv'' = Inr (Some i')"
    by (auto simp: parse_envelope_def split: option.splits sum.splits if_splits
             dest: json_truthy_Some)
  from property_Some [OF c] obtain ms where
    ms: "d = JObj ms" "code_units ''cipher'' \<in> fst ` set ms" by blast
  from property_Some [OF i] ms(1) have "code_units ''iv'' \<in> fst ` set ms" by blast
  with ms d show ?thesis
    by (simp add: parses_as_cipher_iv_object_def)
qed

text \<open>
  C6, as amended. For every non-empty string that does not parse as a JSON object
  containing both a \<^verbatim>\<open>cipher\<close> and an \<^verbatim>\<open>iv\<close> key, and whenever the session can be
  ensured, \<^verbatim>\<open>decryptData\<close> resolves to the string itself, unchanged, and does nothing
  beyond ensuring the session.
\<close>

theorem legacy_pass_through:
  assumes "s \<noteq> []"
    and "ensureAuthenticated svc w = (Inr t, svc', w')"
    and "\<not> parses_as_cipher_iv_object s"
  shows "decryptData (Str s) svc w = (Inr (Str s), svc', w')"
proof -
  from assms(3) have "parse_envelope s = None"
    using parse_envelope_Some by (cases "parse_envelope s") auto
  with assms(1,2) show ?thesis
    by (simp add: decryptData_def catch_as_def)
qed

theorem legacy_pass_through_witness:
  "''not-json'' \<noteq> []
   \<and> ensureAuthenticated real_service world_up =
       (Inr (Str ''token-1''), token_session, world0\<lparr>requests := [AuthRequest auth_url]\<rparr>)
   \<and> \<not> parses_as_cipher_iv_object ''not-json''
   \<and> decryptData (Str ''not-json'') real_service world_up =
       (Inr (Str ''not-json''), token_session, world0\<lparr>requests := [AuthRequest auth_url]\<rparr>)"
proof -
  have a: "ensureAuthenticated real_service world_up =
       (Inr (Str ''token-1''), token_session, world0\<lparr>requests := [AuthRequest auth_url]\<rparr>)"
    by code_simp
  have b: "\<not> parses_as_cipher_iv_object ''not-json''"
    by code_simp
  have c: "''not-json'' \<noteq> []" by simp
  from legacy_pass_through [OF c a b] a b show ?thesis by simp
qed

text \<open>
  C6 as stated fails twice. The empty string does not parse as such an object, and
  \<^verbatim>\<open>decryptData\<close> answers \<^verbatim>\<open>null\<close> for it, not the string. And for a legacy text an error
  is raised when the session cannot be ensured, which comes before the parse: with the
  remote service unreachable \<^verbatim>\<open>decryptData\<close> rejects.
\<close>

theorem legacy_pass_through_counterexample:
  "\<not> parses_as_cipher_iv_object ''''
   \<and> decryptData (Str '''') demo_service world0 = (Inr Null, demo_service, world0)
   \<and> Null \<noteq> Str ''''
   \<and> \<not> parses_as_cipher_iv_object ''not-json''
   \<and> decryptData (Str ''not-json'') real_service world0 =
        (Inl DecryptFailed, real_service, world0\<lparr>requests := [AuthRequest auth_url]\<rparr>)"
  by code_simp

section \<open>Properties of the field codec\<close>

subsection \<open>Field names\<close>

lemma encrypted_key_inj [simp]: "encrypted_key f = encrypted_key g \<longleftrightarrow> f = g"
  by (simp add: encrypted_key_def)

lemma encrypted_key_neq [simp]: "encrypted_key f \<noteq> f" "f \<noteq> encrypted_key f"
  by (auto simp: encrypted_key_def)

lemma no_clash_Cons:
  "no_clash (f # fs) \<Longrightarrow> no_clash fs"
  "no_clash (f # fs) \<Longrightarrow> g \<in> set fs \<Longrightarrow> f \<noteq> encrypted_key g \<and> g \<noteq> encrypted_key f"
  by (auto simp: no_clash_def)

lemma no_clash_citizens: "no_clash citizens_sensitiveFields"
  by (simp add: no_clash_def citizens_sensitiveFields_def encrypted_key_def)

lemma no_clash_serviceRequests: "no_clash serviceRequests_sensitiveFields"
  by (simp add: no_clash_def serviceRequests_sensitiveFields_def encrypted_key_def)

lemma distinct_citizens: "distinct citizens_sensitiveFields"
  by (simp add: citizens_sensitiveFields_def)

lemma distinct_serviceRequests: "distinct serviceRequests_sensitiveFields"
  by (simp add: serviceRequests_sensitiveFields_def)

subsection \<open>What \<^verbatim>\<open>encryptData\<close> leaves alone\<close>

text \<open>
  The client never talks to the database: no statement is handed to the engine and none
  of its answers is used up.
\<close>

lemma post_auth_db:
  "post_auth url w = (r, w') \<Longrightarrow>
     statements w' = statements w \<and> db_replies w' = db_replies w"
  by (auto simp: post_auth_def Let_def split: list.splits option.splits)

lemma post_encrypt_db:
  "post_encrypt url k p w = (r, w') \<Longrightarrow>
     statements w' = statements w \<and> db_replies w' = db_replies w"
  by (auto simp: post_encrypt_def Let_def split: list.splits option.splits)

lemma authenticate_db:
  "authenticate s w = (r, s', w') \<Longrightarrow>
     statements w' = statements w \<and> db_replies w' = db_replies w"
  by (auto simp: authenticate_def authenticateWithAPIKey_def authenticateWithTrustedCA_def
           dest: post_auth_db split: if_splits option.splits prod.splits sum.splits)

lemma ensureAuthenticated_db:
  "ensureAuthenticated s w = (r, s', w') \<Longrightarrow>
     statements w' = statements w \<and> db_replies w' = db_replies w"
  by (auto simp: ensureAuthenticated_def dest: authenticate_db
           split: if_splits prod.splits sum.splits)

lemma catch_as_cases:
  "catch_as e x = (r, s', w') \<Longrightarrow>
     (\<exists>e'. x = (Inl e', s', w') \<and> r = Inl e) \<or> (\<exists>v. x = (Inr v, s', w') \<and> r = Inr v)"
  by (auto simp: catch_as_def split: prod.splits sum.splits)

lemma encryptData_db:
  "encryptData p s w = (r, s', w') \<Longrightarrow>
     statements w' = statements w \<and> db_replies w' = db_replies w"
  unfolding encryptData_def
  by (drule catch_as_cases)
     (auto dest!: ensureAuthenticated_db post_encrypt_db
           split: if_splits prod.splits sum.splits jsval.splits)

lemma encryptData_Inl: "encryptData p s w = (Inl e, s', w') \<Longrightarrow> e = EncryptFailed"
  unfolding encryptData_def by (auto dest: catch_as_cases)

lemma encryptData_Inr:
  "truthy p \<Longrightarrow> encryptData p s w = (Inr v, s', w') \<Longrightarrow> \<exists>c. v = Str c"
  unfolding encryptData_def
  by (drule catch_as_cases)
     (auto split: if_splits prod.splits sum.splits jsval.splits)

subsection \<open>The loop of the write path\<close>

lemma encrypt_fields_db:
  "encrypt_fields fs src acc s w = (r, s', w') \<Longrightarrow>
     statements w' = statements w \<and> db_replies w' = db_replies w"
proof (induction fs arbitrary: acc s w)
  case Nil
  then show ?case by simp
next
  case (Cons f fs)
  show ?case
  proof (cases "truthy (get src f)")
    case False
    with Cons show ?thesis by simp
  next
    case True
    obtain r1 s1 w1 where e: "encryptData (get src f) s w = (r1, s1, w1)"
      by (cases "encryptData (get src f) s w") auto
    then have d: "statements w1 = statements w \<and> db_replies w1 = db_replies w"
      by (rule encryptData_db)
    show ?thesis
    proof (cases r1)
      case (Inl x)
      with Cons.prems True e d show ?thesis by simp
    next
      case (Inr v)
      with Cons.prems True e have
        "encrypt_fields fs src (AList.delete f (AList.update (encrypted_key f) v acc)) s1 w1
           = (r, s', w')" by simp
      from Cons.IH [OF this] d show ?thesis by simp
    qed
  qed
qed

lemma encrypt_fields_append:
  "encrypt_fields (xs @ ys) src acc s w =
     (case encrypt_fields xs src acc s w of
        (Inl e, s1, w1) \<Rightarrow> (Inl e, s1, w1)
      | (Inr a, s1, w1) \<Rightarrow> encrypt_fields ys src a s1 w1)"
  by (induction xs arbitrary: acc s w) (auto split: prod.splits sum.splits)

lemma encrypt_fields_frame:
  assumes "encrypt_fields fs src acc s w = (Inr out, s', w')"
    and "\<not> (k \<in> set fs \<and> truthy (get src k))"
    and "\<forall>f\<in>set fs. truthy (get src f) \<longrightarrow> k \<noteq> encrypted_key f"
  shows "map_of out k = map_of acc k"
  using assms
proof (induction fs arbitrary: acc s w)
  case Nil
  then show ?case by simp
next
  case (Cons f fs)
  show ?case
  proof (cases "truthy (get src f)")
    case False
    with Cons.prems have "encrypt_fields fs src acc s w = (Inr out, s', w')" by simp
    from Cons.IH [OF this] Cons.prems show ?thesis by auto
  next
    case True
    with Cons.prems(1) obtain v s1 w1 where
      rest: "encrypt_fields fs src (AList.delete f (AList.update (encrypted_key f) v acc)) s1 w1
               = (Inr out, s', w')"
      by (auto split: prod.splits sum.splits)
    from True Cons.prems have k: "k \<noteq> f" "k \<noteq> encrypted_key f" by auto
    from Cons.IH [OF rest] Cons.prems
    have "map_of out k = map_of (AList.delete f (AList.update (encrypted_key f) v acc)) k"
      by auto
    with k show ?thesis by (simp add: delete_conv' update_conv')
  qed
qed

lemma encrypt_fields_replaced:
  assumes "encrypt_fields fs src acc s w = (Inr out, s', w')"
    and "no_clash fs"
    and "f \<in> set fs"
    and "truthy (get src f)"
  shows "map_of out f = None \<and> (\<exists>c. map_of out (encrypted_key f) = Some (Str c))"
  using assms
proof (induction fs arbitrary: acc s w)
  case Nil
  then show ?case by simp
next
  case (Cons g fs)
  note nc = no_clash_Cons [OF Cons.prems(2)]
  show ?case
  proof (cases "truthy (get src g)")
    case False
    with Cons.prems have "encrypt_fields fs src acc s w = (Inr out, s', w')" "f \<in> set fs"
      by auto
    from Cons.IH [OF this(1) nc(1) this(2) Cons.prems(4)] show ?thesis .
  next
    case True
    with Cons.prems(1) obtain v s1 w1 where
      enc: "encryptData (get src g) s w = (Inr v, s1, w1)" and
      rest: "encrypt_fields fs src (AList.delete g (AList.update (encrypted_key g) v acc)) s1 w1
               = (Inr out, s', w')"
      by (auto split: prod.splits sum.splits)
    show ?thesis
    proof (cases "f \<in> set fs")
      case True
      from Cons.IH [OF rest nc(1) True Cons.prems(4)] show ?thesis .
    next
      case False
      with Cons.prems(3) have fg: "f = g" by simp
      from encryptData_Inr [OF True enc] obtain c where c: "v = Str c" by blast
      have "map_of out g = map_of (AList.delete g (AList.update (encrypted_key g) v acc)) g"
        using encrypt_fields_frame [OF rest, of g] False fg nc(2) by auto
      moreover
      have "map_of out (encrypted_key g)
              = map_of (AList.delete g (AList.update (encrypted_key g) v acc)) (encrypted_key g)"
        using encrypt_fields_frame [OF rest, of "encrypted_key g"] False fg nc(2) by auto
      ultimately show ?thesis using fg c by (simp add: delete_conv' update_conv')
    qed
  qed
qed

text \<open>
  \<^verbatim>\<open>create\<close> awaits the encryption before it builds the statement: an error of the
  encryption is the error of \<^verbatim>\<open>create\<close>, with nothing handed to the engine, and only a
  successful encryption is followed by the one insert statement.
\<close>

lemma create_error:
  assumes "(toStorage, create) = (encryptCitizenData, citizen_create)
           \<or> (toStorage, create) = (encryptServiceRequestData, serviceRequest_create)"
    and "toStorage r s w = (Inl e, s', w')"
  shows "create r s w = (Inl e, s', w')"
    and "statements w' = statements w \<and> db_replies w' = db_replies w"
  using assms
  by (auto simp: citizen_create_def serviceRequest_create_def
        encryptCitizenData_def encryptServiceRequestData_def
        dest!: encrypt_fields_db)

lemma runQuery_statements:
  "runQuery sql params w = (r, w') \<Longrightarrow> statements w' = statements w @ [(sql, params)]"
  by (auto simp: runQuery_def Let_def split: list.splits option.splits)

lemma create_inserts:
  assumes "encryptCitizenData r s w = (Inr enc, s1, w1)"
    and "citizen_create r s w = (res, s', w')"
  shows "statements w' =
           statements w @ [(InsertInto ''citizens'' citizen_columns,
                            map (get enc) citizen_columns)]"
proof -
  obtain q w2 where q: "runQuery (InsertInto ''citizens'' citizen_columns)
        (map (get enc) citizen_columns) w1 = (q, w2)"
    by (cases "runQuery (InsertInto ''citizens'' citizen_columns)
        (map (get enc) citizen_columns) w1") auto
  from assms(1) have "statements w1 = statements w"
    by (auto simp: encryptCitizenData_def dest!: encrypt_fields_db)
  moreover from assms q have "w' = w2"
    by (auto simp: citizen_create_def split: sum.splits prod.splits)
  ultimately show ?thesis using runQuery_statements [OF q] by simp
qed

subsection \<open>The loop of the read path\<close>

lemma decrypt_fields_total:
  "\<exists>out s' w'. decrypt_fields fbs fs src acc s w = (Inr out, s', w')"
proof (induction fs arbitrary: acc s w)
  case Nil
  then show ?case by simp
next
  case (Cons f fs)
  show ?case
  proof (cases "truthy (get src (encrypted_key f))")
    case False
    with Cons.IH [of acc s w] show ?thesis by simp
  next
    case True
    obtain r1 s1 w1 where d: "decryptData (get src (encrypted_key f)) s w = (r1, s1, w1)"
      by (cases "decryptData (get src (encrypted_key f)) s w") auto
    show ?thesis
    proof (cases r1)
      case (Inl e)
      with True d
        Cons.IH [of "AList.delete (encrypted_key f) (AList.update f (fallback fbs f) acc)" s1 w1]
      show ?thesis by simp
    next
      case (Inr v)
      with True d
        Cons.IH [of "AList.delete (encrypted_key f) (AList.update f v acc)" s1 w1]
      show ?thesis by simp
    qed
  qed
qed

lemma decrypt_fields_append:
  "decrypt_fields fbs (xs @ ys) src acc s w =
     (case decrypt_fields fbs xs src acc s w of
        (Inl e, s1, w1) \<Rightarrow> (Inl e, s1, w1)
      | (Inr a, s1, w1) \<Rightarrow> decrypt_fields fbs ys src a s1 w1)"
  by (induction xs arbitrary: acc s w) (auto split: prod.splits sum.splits)

lemma decrypt_fields_frame:
  assumes "decrypt_fields fbs fs src acc s w = (Inr out, s', w')"
    and "\<forall>f\<in>set fs. truthy (get src (encrypted_key f)) \<longrightarrow> k \<noteq> f \<and> k \<noteq> encrypted_key f"
  shows "map_of out k = map_of acc k"
  using assms
proof (induction fs arbitrary: acc s w)
  case Nil
  then show ?case by simp
next
  case (Cons f fs)
  show ?case
  proof (cases "truthy (get src (encrypted_key f))")
    case False
    with Cons.prems have "decrypt_fields fbs fs src acc s w = (Inr out, s', w')" by simp
    from Cons.IH [OF this] Cons.prems show ?thesis by auto
  next
    case True
    with Cons.prems(1) obtain v s1 w1 where
      rest: "decrypt_fields fbs fs src (AList.delete (encrypted_key f) (AList.update f v acc)) s1 w1
               = (Inr out, s', w')"
      by (auto split: prod.splits sum.splits)
    from True Cons.prems have k: "k \<noteq> f" "k \<noteq> encrypted_key f" by auto
    from Cons.IH [OF rest] Cons.prems
    have "map_of out k = map_of (AList.delete (encrypted_key f) (AList.update f v acc)) k"
      by auto
    with k show ?thesis by (simp add: delete_conv' update_conv')
  qed
qed

lemma decrypt_fields_restored:
  assumes "decrypt_fields fbs fs src acc s w = (Inr out, s', w')"
    and "no_clash fs"
    and "f \<in> set fs"
    and "truthy (get src (encrypted_key f))"
  shows "map_of out (encrypted_key f) = None \<and> map_of out f \<noteq> None"
  using assms
proof (induction fs arbitrary: acc s w)
  case Nil
  then show ?case by simp
next
  case (Cons g fs)
  note nc = no_clash_Cons [OF Cons.prems(2)]
  show ?case
  proof (cases "truthy (get src (encrypted_key g))")
    case False
    with Cons.prems have "decrypt_fields fbs fs src acc s w = (Inr out, s', w')" "f \<in> set fs"
      by auto
    from Cons.IH [OF this(1) nc(1) this(2) Cons.prems(4)] show ?thesis .
  next
    case True
    with Cons.prems(1) obtain v s1 w1 where
      rest: "decrypt_fields fbs fs src (AList.delete (encrypted_key g) (AList.update g v acc)) s1 w1
               = (Inr out, s', w')"
      by (auto split: prod.splits sum.splits)
    show ?thesis
    proof (cases "f \<in> set fs")
      case True
      from Cons.IH [OF rest nc(1) True Cons.prems(4)] show ?thesis .
    next
      case False
      with Cons.prems(3) have fg: "f = g" by simp
      have "map_of out g = map_of (AList.delete (encrypted_key g) (AList.update g v acc)) g"
        using decrypt_fields_frame [OF rest, of g] False fg nc(2) by auto
      moreover
      have "map_of out (encrypted_key g)
              = map_of (AList.delete (encrypted_key g) (AList.update g v acc)) (encrypted_key g)"
        using decrypt_fields_frame [OF rest, of "encrypted_key g"] False fg nc(2) by auto
      ultimately show ?thesis using fg by (simp add: delete_conv' update_conv')
    qed
  qed
qed

lemma fallback_labels:
  "map (fallback citizens_fallbackValues) citizens_sensitiveFields =
     [Str ''[Encrypted]'', Str ''[Data]'', Str ''[Encrypted Email]'', Str ''[Encrypted Phone]'',
      Str ''[Encrypted Address]'', Str ''[Protected]'', Str ''[Protected DOB]'']"
  "map (fallback serviceRequests_fallbackValues) serviceRequests_sensitiveFields =
     [Str ''[Encrypted Notes]'', Str ''[Encrypted Application Data]'']"
  by (simp_all add: fallback_def citizens_fallbackValues_def citizens_sensitiveFields_def
        serviceRequests_fallbackValues_def serviceRequests_sensitiveFields_def)

lemma fallback_documented:
  assumes "(fs, fbs, fromStorage) =
              (citizens_sensitiveFields, citizens_fallbackValues, decryptCitizenData)
           \<or> (fs, fbs, fromStorage) =
              (serviceRequests_sensitiveFields, serviceRequests_fallbackValues,
               decryptServiceRequestData)"
    and "f \<in> set fs"
  shows "\<exists>label. (f, label) \<in> set
                   [(''firstName'', ''[Encrypted]''),
                    (''lastName'', ''[Data]''),
                    (''email'', ''[Encrypted Email]''),
                    (''phone'', ''[Encrypted Phone]''),
                    (''address'', ''[Encrypted Address]''),
                    (''zipCode'', ''[Protected]''),
                    (''dateOfBirth'', ''[Protected DOB]''),
                    (''notes'', ''[Encrypted Notes]''),
                    (''applicationData'', ''[Encrypted Application Data]'')]
           \<and> fallback fbs f = Str label"
  using assms
  by (auto simp: fallback_def citizens_fallbackValues_def citizens_sensitiveFields_def
        serviceRequests_fallbackValues_def serviceRequests_sensitiveFields_def)

subsection \<open>Writing\<close>

text \<open>
  C3, as amended. For both entity kinds and every entity for which the encryption
  succeeds: a sensitive field whose value is truthy (a non-empty string) is absent from
  the result under its own key and present as \<^verbatim>\<open>{field}_encrypted\<close>, holding a string;
  a sensitive field whose value is falsy (the empty string, \<^verbatim>\<open>null\<close>, or no value at
  all) is in the result exactly as it was in the entity; and every key of the result is
  either the \<^verbatim>\<open>_encrypted\<close> key of a truthy sensitive field or a key whose entry is the
  entity's own and that is not a truthy sensitive field.
\<close>

theorem field_partition:
  assumes kind: "(fs, toStorage) = (citizens_sensitiveFields, encryptCitizenData)
           \<or> (fs, toStorage) = (serviceRequests_sensitiveFields, encryptServiceRequestData)"
    and run: "toStorage r s w = (Inr out, s', w')"
  shows "(\<forall>f\<in>set fs. truthy (get r f) \<longrightarrow>
            \<not> has_key out f \<and> (\<exists>c. map_of out (encrypted_key f) = Some (Str c)))
       \<and> (\<forall>f\<in>set fs. \<not> truthy (get r f) \<longrightarrow> map_of out f = map_of r f)
       \<and> (\<forall>k. has_key out k \<longrightarrow>
            (\<exists>f\<in>set fs. truthy (get r f) \<and> k = encrypted_key f)
            \<or> (map_of out k = map_of r k \<and> \<not> (k \<in> set fs \<and> truthy (get r k))))"
proof -
  from kind run have loop: "encrypt_fields fs r r s w = (Inr out, s', w')"
    by (auto simp: encryptCitizenData_def encryptServiceRequestData_def)
  from kind have nc: "no_clash fs"
    using no_clash_citizens no_clash_serviceRequests by auto
  have a: "\<not> has_key out f \<and> (\<exists>c. map_of out (encrypted_key f) = Some (Str c))"
    if "f \<in> set fs" "truthy (get r f)" for f
    using encrypt_fields_replaced [OF loop nc that] by (simp add: has_key_def)
  have b: "map_of out f = map_of r f" if "f \<in> set fs" "\<not> truthy (get r f)" for f
  proof (rule encrypt_fields_frame [OF loop])
    show "\<not> (f \<in> set fs \<and> truthy (get r f))" using that by simp
    show "\<forall>g\<in>set fs. truthy (get r g) \<longrightarrow> f \<noteq> encrypted_key g"
      using nc that by (auto simp: no_clash_def)
  qed
  have c: "(\<exists>f\<in>set fs. truthy (get r f) \<and> k = encrypted_key f)
            \<or> (map_of out k = map_of r k \<and> \<not> (k \<in> set fs \<and> truthy (get r k)))"
    if k: "has_key out k" for k
  proof (cases "\<exists>f\<in>set fs. truthy (get r f) \<and> k = encrypted_key f")
    case True
    then show ?thesis by simp
  next
    case False
    have n: "\<not> (k \<in> set fs \<and> truthy (get r k))"
      using a [of k] k by auto
    from False have "\<forall>f\<in>set fs. truthy (get r f) \<longrightarrow> k \<noteq> encrypted_key f" by auto
    from encrypt_fields_frame [OF loop n this] n show ?thesis by simp
  qed
  from a b c show ?thesis by blast
qed

theorem field_partition_witness:
  "encryptServiceRequestData request1 demo_service world0 =
     (Inr request1_stored, demo_session, world0)
   \<and> truthy (get request1 ''applicationData'') \<and> \<not> truthy (get request1 ''notes'')
   \<and> \<not> has_key request1_stored ''applicationData''
   \<and> (\<exists>c. map_of request1_stored (encrypted_key ''applicationData'') = Some (Str c))
   \<and> map_of request1_stored ''notes'' = map_of request1 ''notes''"
proof -
  have run: "encryptServiceRequestData request1 demo_service world0 =
      (Inr request1_stored, demo_session, world0)"
    by code_simp
  have t: "truthy (get request1 ''applicationData'')" "\<not> truthy (get request1 ''notes'')"
    by code_simp+
  have m: "''applicationData'' \<in> set serviceRequests_sensitiveFields"
    "''notes'' \<in> set serviceRequests_sensitiveFields"
    by (simp_all add: serviceRequests_sensitiveFields_def)
  have "(serviceRequests_sensitiveFields, encryptServiceRequestData) =
          (citizens_sensitiveFields, encryptCitizenData)
        \<or> (serviceRequests_sensitiveFields, encryptServiceRequestData) =
          (serviceRequests_sensitiveFields, encryptServiceRequestData)"
    by simp
  from field_partition [OF this run] m t run show ?thesis by blast
qed

text \<open>
  C3 as stated fails for a service request without notes: the sensitive field
  \<^verbatim>\<open>notes\<close>, holding the empty string, is skipped by \<^verbatim>\<open>if (requestData[field])\<close> and
  is in the result under its own key.
\<close>

theorem field_partition_counterexample:
  "encryptServiceRequestData request1 demo_service world0 =
     (Inr request1_stored, demo_session, world0)
   \<and> ''notes'' \<in> set serviceRequests_sensitiveFields
   \<and> ''notes'' \<notin> set serviceRequests_publicFields
   \<and> has_key request1_stored ''notes''"
  by code_simp

text \<open>
  C7. When, in the loop over the sensitive fields of an entity of either kind, a call of
  \<^verbatim>\<open>encryptData\<close> throws (\<open>pre\<close> are the fields before it, \<open>a\<close> the record they left
  behind), then \<^verbatim>\<open>encryptCitizenData\<close> / \<^verbatim>\<open>encryptServiceRequestData\<close> rejects with that
  error, which is the encryption failure; \<^verbatim>\<open>create\<close> rejects with it as well and the
  insert is not executed: no statement has been handed to the database engine and none
  of its answers has been used up, so what is stored is as it was before the call.
\<close>

theorem write_atomicity:
  assumes kind: "(fs, toStorage, create) =
              (citizens_sensitiveFields, encryptCitizenData, citizen_create)
           \<or> (fs, toStorage, create) =
              (serviceRequests_sensitiveFields, encryptServiceRequestData, serviceRequest_create)"
    and split: "fs = pre @ f # post"
    and before: "encrypt_fields pre r r s w = (Inr a, s1, w1)"
    and present: "truthy (get r f)"
    and throws: "encryptData (get r f) s1 w1 = (Inl e, s2, w2)"
  shows "toStorage r s w = (Inl EncryptFailed, s2, w2)
       \<and> create r s w = (Inl EncryptFailed, s2, w2)
       \<and> statements w2 = statements w
       \<and> db_replies w2 = db_replies w"
proof -
  from throws have e: "e = EncryptFailed" by (rule encryptData_Inl)
  have "encrypt_fields fs r r s w = (Inl EncryptFailed, s2, w2)"
    using split before present throws e by (simp add: encrypt_fields_append)
  with kind have t: "toStorage r s w = (Inl EncryptFailed, s2, w2)"
    by (auto simp: encryptCitizenData_def encryptServiceRequestData_def)
  from kind have k: "(toStorage, create) = (encryptCitizenData, citizen_create)
           \<or> (toStorage, create) = (encryptServiceRequestData, serviceRequest_create)"
    by auto
  from create_error(1) [OF k t] have c: "create r s w = (Inl EncryptFailed, s2, w2)" .
  from create_error(2) [OF k t] t c show ?thesis by simp
qed

text \<open>
  The remote service encrypts the first name and rejects the last name: nothing is
  inserted.
\<close>

theorem write_atomicity_witness:
  "citizens_sensitiveFields =
     [''firstName''] @ ''lastName'' # [''email'', ''phone'', ''address'', ''zipCode'', ''dateOfBirth'']
   \<and> encrypt_fields [''firstName''] john john real_service world_partial =
       (Inr john_first_done, token_session,
        world_partial\<lparr>auth_replies := [], encrypt_replies := [None],
           requests := [AuthRequest auth_url,
                        EncryptRequest encrypt_url (Some ''key-1'') ''Sm9obg=='']\<rparr>)
   \<and> truthy (get john ''lastName'')
   \<and> encryptCitizenData john real_service world_partial =
       (Inl EncryptFailed, token_session,
        world_partial\<lparr>auth_replies := [], encrypt_replies := [],
           requests := [AuthRequest auth_url,
                        EncryptRequest encrypt_url (Some ''key-1'') ''Sm9obg=='',
                        EncryptRequest encrypt_url (Some ''key-1'') ''U21pdGg='']\<rparr>)
   \<and> citizen_create john real_service world_partial =
       (Inl EncryptFailed, token_session,
        world_partial\<lparr>auth_replies := [], encrypt_replies := [],
           requests := [AuthRequest auth_url,
                        EncryptRequest encrypt_url (Some ''key-1'') ''Sm9obg=='',
                        EncryptRequest encrypt_url (Some ''key-1'') ''U21pdGg='']\<rparr>)
   \<and> statements world_partial = []
   \<and> db_replies world_partial = [Some (11, 1)]"
proof -
  let ?w1 = "world_partial\<lparr>auth_replies := [], encrypt_replies := [None],
           requests := [AuthRequest auth_url,
                        EncryptRequest encrypt_url (Some ''key-1'') ''Sm9obg=='']\<rparr>"
  let ?w2 = "world_partial\<lparr>auth_replies := [], encrypt_replies := [],
           requests := [AuthRequest auth_url,
                        EncryptRequest encrypt_url (Some ''key-1'') ''Sm9obg=='',
                        EncryptRequest encrypt_url (Some ''key-1'') ''U21pdGg='']\<rparr>"
  have kind: "(citizens_sensitiveFields, encryptCitizenData, citizen_create) =
              (citizens_sensitiveFields, encryptCitizenData, citizen_create)
           \<or> (citizens_sensitiveFields, encryptCitizenData, citizen_create) =
              (serviceRequests_sensitiveFields, encryptServiceRequestData,
               serviceRequest_create)"
    by simp
  have split: "citizens_sensitiveFields =
     [''firstName''] @ ''lastName'' # [''email'', ''phone'', ''address'', ''zipCode'', ''dateOfBirth'']"
    by (simp add: citizens_sensitiveFields_def)
  have before: "encrypt_fields [''firstName''] john john real_service world_partial =
       (Inr john_first_done, token_session, ?w1)"
    by code_simp
  have present: "truthy (get john ''lastName'')"
    by code_simp
  have throws: "encryptData (get john ''lastName'') token_session ?w1 =
       (Inl EncryptFailed, token_session, ?w2)"
    by code_simp
  have d: "statements world_partial = []" "db_replies world_partial = [Some (11, 1)]"
    by code_simp+
  from write_atomicity [OF kind split before present throws] split before present d
  show ?thesis by simp
qed

subsection \<open>Reading\<close>

text \<open>
  C5, as amended. For both entity kinds and every stored record, \<^verbatim>\<open>decryptCitizenData\<close> /
  \<^verbatim>\<open>decryptServiceRequestData\<close> resolves to a record in which, for every sensitive
  field whose \<^verbatim>\<open>{field}_encrypted\<close> value is truthy (a non-empty string), the
  \<^verbatim>\<open>{field}_encrypted\<close> key is gone and the field is present, whether the decryption
  succeeded or threw; a \<^verbatim>\<open>{field}_encrypted\<close> entry whose value is falsy (\<^verbatim>\<open>null\<close>, the
  empty string, or absent) is in the result as it was in the record.
\<close>

theorem envelope_keys_removed:
  assumes kind: "(fs, fbs, fromStorage) =
              (citizens_sensitiveFields, citizens_fallbackValues, decryptCitizenData)
           \<or> (fs, fbs, fromStorage) =
              (serviceRequests_sensitiveFields, serviceRequests_fallbackValues,
               decryptServiceRequestData)"
  shows "\<exists>out s' w'. fromStorage (Some r) s w = (Inr (Some out), s', w')
       \<and> (\<forall>f\<in>set fs. truthy (get r (encrypted_key f)) \<longrightarrow>
             \<not> has_key out (encrypted_key f) \<and> has_key out f)
       \<and> (\<forall>f\<in>set fs. \<not> truthy (get r (encrypted_key f)) \<longrightarrow>
             map_of out (encrypted_key f) = map_of r (encrypted_key f))"
proof -
  obtain out s' w' where loop: "decrypt_fields fbs fs r r s w = (Inr out, s', w')"
    using decrypt_fields_total by blast
  from kind have nc: "no_clash fs"
    using no_clash_citizens no_clash_serviceRequests by auto
  from kind loop have res: "fromStorage (Some r) s w = (Inr (Some out), s', w')"
    by (auto simp: decryptCitizenData_def decryptServiceRequestData_def)
  have a: "\<not> has_key out (encrypted_key f) \<and> has_key out f"
    if "f \<in> set fs" "truthy (get r (encrypted_key f))" for f
    using decrypt_fields_restored [OF loop nc that] by (simp add: has_key_def)
  have b: "map_of out (encrypted_key f) = map_of r (encrypted_key f)"
    if "f \<in> set fs" "\<not> truthy (get r (encrypted_key f))" for f
  proof (rule decrypt_fields_frame [OF loop])
    show "\<forall>g\<in>set fs. truthy (get r (encrypted_key g)) \<longrightarrow>
            encrypted_key f \<noteq> g \<and> encrypted_key f \<noteq> encrypted_key g"
      using nc that by (auto simp: no_clash_def)
  qed
  from res a b show ?thesis by blast
qed

theorem envelope_keys_removed_witness:
  "decryptCitizenData (Some row1) real_service world_up =
     (Inr (Some row1_read), token_session,
      world0\<lparr>requests := [AuthRequest auth_url,
                             DecryptRequest decrypt_url (Some ''key-1'')
                               (JStr (code_units ''a'')) (JStr (code_units ''b''))]\<rparr>)
   \<and> truthy (get row1 (encrypted_key ''lastName''))
   \<and> \<not> has_key row1_read (encrypted_key ''lastName'') \<and> has_key row1_read ''lastName''
   \<and> \<not> truthy (get row1 (encrypted_key ''phone''))
   \<and> map_of row1_read (encrypted_key ''phone'') = map_of row1 (encrypted_key ''phone'')"
proof -
  have kind: "(citizens_sensitiveFields, citizens_fallbackValues, decryptCitizenData) =
              (citizens_sensitiveFields, citizens_fallbackValues, decryptCitizenData)
           \<or> (citizens_sensitiveFields, citizens_fallbackValues, decryptCitizenData) =
              (serviceRequests_sensitiveFields, serviceRequests_fallbackValues,
               decryptServiceRequestData)"
    by simp
  have run: "decryptCitizenData (Some row1) real_service world_up =
     (Inr (Some row1_read), token_session,
      world0\<lparr>requests := [AuthRequest auth_url,
                             DecryptRequest decrypt_url (Some ''key-1'')
                               (JStr (code_units ''a'')) (JStr (code_units ''b''))]\<rparr>)"
    by code_simp
  have t: "truthy (get row1 (encrypted_key ''lastName''))"
    "\<not> truthy (get row1 (encrypted_key ''phone''))"
    by code_simp+
  have m: "''lastName'' \<in> set citizens_sensitiveFields"
    "''phone'' \<in> set citizens_sensitiveFields"
    by (simp_all add: citizens_sensitiveFields_def)
  from envelope_keys_removed [OF kind, of row1 real_service world_up] run m t
  show ?thesis by auto
qed

text \<open>
  C5 as stated fails for a row with an empty column: \<^verbatim>\<open>phone_encrypted\<close> is \<^verbatim>\<open>null\<close> and
  \<^verbatim>\<open>email_encrypted\<close> the empty string, \<^verbatim>\<open>if (encryptedCitizenData[encryptedField])\<close>
  skips both, and both keys are in the result.
\<close>

theorem envelope_keys_removed_counterexample:
  "decryptCitizenData (Some row1) real_service world_up =
     (Inr (Some row1_read), token_session,
      world0\<lparr>requests := [AuthRequest auth_url,
                             DecryptRequest decrypt_url (Some ''key-1'')
                               (JStr (code_units ''a'')) (JStr (code_units ''b''))]\<rparr>)
   \<and> ''phone'' \<in> set citizens_sensitiveFields \<and> ''email'' \<in> set citizens_sensitiveFields
   \<and> get row1 (encrypted_key ''phone'') = Null \<and> get row1 (encrypted_key ''email'') = Str []
   \<and> has_key row1_read (encrypted_key ''phone'')
   \<and> has_key row1_read (encrypted_key ''email'')"
  by code_simp

text \<open>
  C4. For both entity kinds, \<^verbatim>\<open>decryptCitizenData\<close> / \<^verbatim>\<open>decryptServiceRequestData\<close>
  always resolves, whatever its argument, the service and the world. And when the
  record has a truthy \<^verbatim>\<open>{field}_encrypted\<close> value for a sensitive field and the call of
  \<^verbatim>\<open>decryptData\<close> made for it throws (\<open>pre\<close> are the fields before it, \<open>a\<close> the record
  they left behind, \<open>s1\<close> and \<open>w1\<close> the service and the world at that call), whether
  the decryption or the authentication before it failed, the result holds the fallback
  label of the field under \<^verbatim>\<open>field\<close> and has no \<^verbatim>\<open>{field}_encrypted\<close> key. The label
  is the one of the table \<^verbatim>\<open>fallbackValues\<close> and is the documented label of that field:
  \<^verbatim>\<open>[Encrypted]\<close> for \<^verbatim>\<open>firstName\<close>, \<^verbatim>\<open>[Data]\<close> for \<^verbatim>\<open>lastName\<close>, and so on for the nine
  sensitive fields.
\<close>

theorem read_totality:
  assumes kind: "(fs, fbs, fromStorage) =
              (citizens_sensitiveFields, citizens_fallbackValues, decryptCitizenData)
           \<or> (fs, fbs, fromStorage) =
              (serviceRequests_sensitiveFields, serviceRequests_fallbackValues,
               decryptServiceRequestData)"
  shows "(\<exists>res s' w'. fromStorage x s w = (Inr res, s', w'))
       \<and> (x = Some r \<and> fs = pre @ f # post
            \<and> decrypt_fields fbs pre r r s w = (Inr a, s1, w1)
            \<and> truthy (get r (encrypted_key f))
            \<and> decryptData (get r (encrypted_key f)) s1 w1 = (Inl e, s2, w2) \<longrightarrow>
          (\<exists>out s' w' label. fromStorage x s w = (Inr (Some out), s', w')
             \<and> map_of out f = Some (fallback fbs f)
             \<and> (f, label) \<in> set
                   [(''firstName'', ''[Encrypted]''),
                    (''lastName'', ''[Data]''),
                    (''email'', ''[Encrypted Email]''),
                    (''phone'', ''[Encrypted Phone]''),
                    (''address'', ''[Encrypted Address]''),
                    (''zipCode'', ''[Protected]''),
                    (''dateOfBirth'', ''[Protected DOB]''),
                    (''notes'', ''[Encrypted Notes]''),
                    (''applicationData'', ''[Encrypted Application Data]'')]
             \<and> map_of out f = Some (Str label)
             \<and> \<not> has_key out (encrypted_key f)))"
proof (intro conjI impI)
  show "\<exists>res s' w'. fromStorage x s w = (Inr res, s', w')"
  proof (cases x)
    case None
    with kind show ?thesis
      by (auto simp: decryptCitizenData_def decryptServiceRequestData_def)
  next
    case (Some r')
    obtain out s' w' where "decrypt_fields fbs fs r' r' s w = (Inr out, s', w')"
      using decrypt_fields_total by blast
    with kind Some show ?thesis
      by (auto simp: decryptCitizenData_def decryptServiceRequestData_def)
  qed
next
  assume h: "x = Some r \<and> fs = pre @ f # post
            \<and> decrypt_fields fbs pre r r s w = (Inr a, s1, w1)
            \<and> truthy (get r (encrypted_key f))
            \<and> decryptData (get r (encrypted_key f)) s1 w1 = (Inl e, s2, w2)"
  let ?acc = "AList.delete (encrypted_key f) (AList.update f (fallback fbs f) a)"
  obtain out s' w' where post: "decrypt_fields fbs post r ?acc s2 w2 = (Inr out, s', w')"
    using decrypt_fields_total by blast
  with h have loop: "decrypt_fields fbs fs r r s w = (Inr out, s', w')"
    by (simp add: decrypt_fields_append)
  with kind h have res: "fromStorage x s w = (Inr (Some out), s', w')"
    by (auto simp: decryptCitizenData_def decryptServiceRequestData_def)
  from kind have nc: "no_clash fs" and di: "distinct fs"
    using no_clash_citizens no_clash_serviceRequests distinct_citizens distinct_serviceRequests
    by auto
  from di h have fpost: "f \<notin> set post" by auto
  from nc h have cl: "\<forall>g\<in>set post. f \<noteq> encrypted_key g \<and> g \<noteq> encrypted_key f"
    by (auto simp: no_clash_def)
  have "map_of out f = map_of ?acc f"
    using decrypt_fields_frame [OF post, of f] fpost cl by auto
  moreover have "map_of out (encrypted_key f) = map_of ?acc (encrypted_key f)"
    using decrypt_fields_frame [OF post, of "encrypted_key f"] fpost cl by auto
  ultimately have o: "map_of out f = Some (fallback fbs f) \<and> \<not> has_key out (encrypted_key f)"
    by (simp add: delete_conv' update_conv' has_key_def)
  from h have "f \<in> set fs" by simp
  with kind obtain label where l: "(f, label) \<in> set
                   [(''firstName'', ''[Encrypted]''),
                    (''lastName'', ''[Data]''),
                    (''email'', ''[Encrypted Email]''),
                    (''phone'', ''[Encrypted Phone]''),
                    (''address'', ''[Encrypted Address]''),
                    (''zipCode'', ''[Protected]''),
                    (''dateOfBirth'', ''[Protected DOB]''),
                    (''notes'', ''[Encrypted Notes]''),
                    (''applicationData'', ''[Encrypted Application Data]'')]"
    "fallback fbs f = Str label"
    using fallback_documented by blast
  with res o show "\<exists>out s' w' label. fromStorage x s w = (Inr (Some out), s', w')
             \<and> map_of out f = Some (fallback fbs f)
             \<and> (f, label) \<in> set
                   [(''firstName'', ''[Encrypted]''),
                    (''lastName'', ''[Data]''),
                    (''email'', ''[Encrypted Email]''),
                    (''phone'', ''[Encrypted Phone]''),
                    (''address'', ''[Encrypted Address]''),
                    (''zipCode'', ''[Protected]''),
                    (''dateOfBirth'', ''[Protected DOB]''),
                    (''notes'', ''[Encrypted Notes]''),
                    (''applicationData'', ''[Encrypted Application Data]'')]
             \<and> map_of out f = Some (Str label)
             \<and> \<not> has_key out (encrypted_key f)"
    by auto
qed

text \<open>
  The remote service cannot be reached at all: already the authentication fails, for
  the first name and again for the last name, and both fields get their labels.
\<close>

theorem read_totality_witness:
  "citizens_sensitiveFields =
     [''firstName''] @ ''lastName'' # [''email'', ''phone'', ''address'', ''zipCode'', ''dateOfBirth'']
   \<and> decrypt_fields citizens_fallbackValues [''firstName''] row1 row1 real_service world0 =
       (Inr row1_first_failed, real_service, world0\<lparr>requests := [AuthRequest auth_url]\<rparr>)
   \<and> truthy (get row1 (encrypted_key ''lastName''))
   \<and> decryptData (get row1 (encrypted_key ''lastName'')) real_service
         (world0\<lparr>requests := [AuthRequest auth_url]\<rparr>) =
       (Inl DecryptFailed, real_service,
        world0\<lparr>requests := [AuthRequest auth_url, AuthRequest auth_url]\<rparr>)
   \<and> decryptCitizenData (Some row1) real_service world0 =
       (Inr (Some row1_unreachable), real_service,
        world0\<lparr>requests := [AuthRequest auth_url, AuthRequest auth_url]\<rparr>)
   \<and> map_of row1_unreachable ''lastName'' = Some (Str ''[Data]'')
   \<and> fallback citizens_fallbackValues ''lastName'' = Str ''[Data]''
   \<and> \<not> has_key row1_unreachable (encrypted_key ''lastName'')"
proof -
  let ?w1 = "world0\<lparr>requests := [AuthRequest auth_url]\<rparr>"
  let ?w2 = "world0\<lparr>requests := [AuthRequest auth_url, AuthRequest auth_url]\<rparr>"
  have kind: "(citizens_sensitiveFields, citizens_fallbackValues, decryptCitizenData) =
              (citizens_sensitiveFields, citizens_fallbackValues, decryptCitizenData)
           \<or> (citizens_sensitiveFields, citizens_fallbackValues, decryptCitizenData) =
              (serviceRequests_sensitiveFields, serviceRequests_fallbackValues,
               decryptServiceRequestData)"
    by simp
  have split: "citizens_sensitiveFields =
     [''firstName''] @ ''lastName'' # [''email'', ''phone'', ''address'', ''zipCode'', ''dateOfBirth'']"
    by (simp add: citizens_sensitiveFields_def)
  have before: "decrypt_fields citizens_fallbackValues [''firstName''] row1 row1 real_service
         world0 = (Inr row1_first_failed, real_service, ?w1)"
    by code_simp
  have present: "truthy (get row1 (encrypted_key ''lastName''))"
    by code_simp
  have throws: "decryptData (get row1 (encrypted_key ''lastName'')) real_service ?w1 =
       (Inl DecryptFailed, real_service, ?w2)"
    by code_simp
  have run: "decryptCitizenData (Some row1) real_service world0 =
       (Inr (Some row1_unreachable), real_service, ?w2)"
    by code_simp
  have label: "fallback citizens_fallbackValues ''lastName'' = Str ''[Data]''"
    by code_simp
  from read_totality [OF kind, of "Some row1" real_service world0 row1 "[''firstName'']"
      "''lastName''" "[''email'', ''phone'', ''address'', ''zipCode'', ''dateOfBirth'']"
      row1_first_failed real_service ?w1 DecryptFailed real_service ?w2]
    split before present throws run label
  show ?thesis by auto
qed

end
